theory Spec2Isabelle
  imports Complex_Main
begin

section \<open>Values shared by the whole grid\<close>

text \<open>
  The grid of \<^verbatim>\<open>src/lib/bundle.cjs\<close> is embedded function by function. JavaScript
  numbers that hold pixel quantities (widths, offsets, scroll positions) are modelled as
  \<^typ>\<open>real\<close>; numbers that hold indices are \<^typ>\<open>int\<close> or \<^typ>\<open>nat\<close>. Row objects
  are values of a type variable \<open>'r\<close> whose HOL equality stands for JavaScript's reference
  equality \<^verbatim>\<open>===\<close> (every row object is its own identity). \<^verbatim>\<open>undefined\<close> is
  \<open>None\<close>.
\<close>

definition SELECT_COLUMN_KEY :: string where
  "SELECT_COLUMN_KEY = ''select-row''"

text \<open>\<^verbatim>\<open>Array.prototype.indexOf\<close>: the first index of the element, or \<open>-1\<close>.\<close>

fun indexOf :: "'a list \<Rightarrow> 'a \<Rightarrow> int" where
  "indexOf [] x = -1"
| "indexOf (y # ys) x =
     (if y = x then 0 else (let i = indexOf ys x in if i = -1 then -1 else i + 1))"

text \<open>\<^verbatim>\<open>Array.prototype.includes\<close>.\<close>

definition arrayIncludes :: "'a list \<Rightarrow> 'a \<Rightarrow> bool" where
  "arrayIncludes xs x = (x \<in> set xs)"

text \<open>
  Reading \<^verbatim>\<open>xs[i]\<close>: out of range (also for a negative index) the result is
  \<^verbatim>\<open>undefined\<close>.
\<close>

definition elemAt :: "'a list \<Rightarrow> int \<Rightarrow> 'a option" where
  "elemAt xs i = (if 0 \<le> i \<and> i < int (length xs) then Some (xs ! nat i) else None)"

text \<open>
  Writing \<^verbatim>\<open>xs[i] = v\<close> on a copy of an array of rows. Inside the array the entry is
  replaced; at or past the end JavaScript extends the array and leaves holes; a negative
  index only sets a property and leaves every element as it was. The result is a list of
  optional entries, \<open>None\<close> for a hole.
\<close>

definition assignAt :: "'a list \<Rightarrow> int \<Rightarrow> 'a \<Rightarrow> 'a option list" where
  "assignAt xs i v =
     (if i < 0 then map Some xs
      else if i < int (length xs) then (map Some xs)[nat i := Some v]
      else map Some xs @ replicate (nat i - length xs) None @ [Some v])"

section \<open>Column metrics\<close>

text \<open>
  The declared width of a column is a number, a string (a percentage when it has the
  shape \<^verbatim>\<open>/^\d+%$/\<close>) or absent.
\<close>

datatype col_width = WidthNumber real | WidthString string | WidthUnset

text \<open>
  Renderers are opaque to the engine: the two built-in ones the metrics refer to, and the
  caller's own.
\<close>

datatype 'f renderer = ValueFormatter | ToggleGroupFormatter | Custom 'f

text \<open>
  \<^verbatim>\<open>column.editable\<close> is absent, a flag, or a predicate on the row; the predicate is
  called with whatever \<^verbatim>\<open>rows[rowIdx]\<close> holds, which may be \<^verbatim>\<open>undefined\<close>.
\<close>

datatype 'r editable = EditableUnset | EditableFlag bool | EditableFn "'r option \<Rightarrow> bool"

text \<open>
  A keyboard event as the handlers read it. \<open>defaultPrevented\<close> is what
  \<^verbatim>\<open>event.isDefaultPrevented()\<close> answers when the event arrives, and
  \<open>targetIsLoneEditorInput\<close> is the answer of the DOM test in
  \<^verbatim>\<open>onEditorNavigation\<close>: the target is an input, textarea or select element that is
  the only child of the editor container (or of its label).
\<close>

record key_event =
  eventKey :: string
  keyCode :: nat
  ctrlKey :: bool
  metaKey :: bool
  shiftKey :: bool
  defaultPrevented :: bool
  targetIsLoneEditorInput :: bool

text \<open>
  A column as the caller declares it (\<open>'w = col_width\<close>) and as the first pass of
  \<^verbatim>\<open>getColumnMetrics\<close> leaves it (\<open>'w = real option\<close>: the width resolved or still
  unassigned). \<open>frozen\<close> and \<open>rowGroup\<close> are read by truthiness. \<open>onCellKeyDown\<close>
  and \<open>onNavigation\<close> are the members of \<^verbatim>\<open>column.editorOptions\<close> the engine calls;
  \<open>onCellKeyDown\<close> answers whether the caller's handler prevented the default.
\<close>

record ('w, 'r, 'f) column =
  key :: string
  name :: string
  width :: 'w
  minWidth :: "real option"
  maxWidth :: "real option"
  frozen :: bool
  rowGroup :: bool
  sortable :: "bool option"
  resizable :: "bool option"
  formatter :: "'f renderer option"
  groupFormatter :: "'f renderer option"
  editor :: "'f option"
  editable :: "'r editable"
  onCellKeyDown :: "(key_event \<Rightarrow> bool) option"
  onNavigation :: "(key_event \<Rightarrow> bool) option"

text \<open>
  A calculated column: the spread of the sized column (kept whole in \<open>column\<close>) with the
  fields the second pass overrides or adds.
\<close>

record ('r, 'f) calculated_column =
  column :: "(real option, 'r, 'f) column"
  idx :: nat
  width :: real
  left :: real
  sortable :: bool
  resizable :: bool
  formatter :: "'f renderer"
  groupFormatter :: "'f renderer option"
  isLastFrozenColumn :: bool

record ('r, 'f) metrics =
  rawColumns :: "(col_width, 'r, 'f) column list"
  columnWidths :: "string \<rightharpoonup> real"
  viewportWidth :: real
  minColumnWidth :: real
  defaultSortable :: bool
  defaultResizable :: bool
  defaultFormatter :: "'f renderer"
  rawGroupBy :: "string list option"

record ('r, 'f) column_metrics =
  columns :: "('r, 'f) calculated_column list"
  lastFrozenColumnIndex :: int
  totalFrozenColumnWidth :: real
  totalColumnWidth :: real
  groupBy :: "string list"

text \<open>The test \<^verbatim>\<open>/^\d+%$/\<close> and \<^verbatim>\<open>parseInt(width, 10)\<close> on a string that passes it.\<close>

definition isDigit :: "char \<Rightarrow> bool" where
  "isDigit c = (48 \<le> (of_char c :: nat) \<and> (of_char c :: nat) \<le> 57)"

definition isPercentage :: "string \<Rightarrow> bool" where
  "isPercentage s =
     (2 \<le> length s \<and> last s = CHR ''%'' \<and> list_all isDigit (butlast s))"

definition parseInt :: "string \<Rightarrow> nat" where
  "parseInt s = foldl (\<lambda>n c. 10 * n + (of_char c - 48)) 0 (takeWhile isDigit s)"

definition getSpecifiedWidth ::
  "(col_width, 'r, 'f) column \<Rightarrow> (string \<rightharpoonup> real) \<Rightarrow> real \<Rightarrow> real option" where
  "getSpecifiedWidth c widths vw =
     (case widths (key c) of
        Some resized \<Rightarrow> Some resized
      | None \<Rightarrow>
          (case column.width c of
             WidthNumber n \<Rightarrow> Some n
           | WidthString s \<Rightarrow>
               if isPercentage s
               then Some (of_int \<lfloor>vw * real (parseInt s) / 100\<rfloor>)
               else None
           | WidthUnset \<Rightarrow> None))"

definition clampColumnWidth ::
  "real \<Rightarrow> ('w, 'r, 'f) column \<Rightarrow> real \<Rightarrow> real" where
  "clampColumnWidth w c minColW =
     (let w1 = max w (case minWidth c of Some m \<Rightarrow> m | None \<Rightarrow> minColW)
      in case maxWidth c of Some m \<Rightarrow> min w1 m | None \<Rightarrow> w1)"

text \<open>
  The first pass, \<^verbatim>\<open>metrics.rawColumns.map(...)\<close>. The counters the callback updates
  are threaded through: the allocated widths, the number of columns without a width, and
  the index of the last frozen column.
\<close>

record pass1_state =
  allocatedWidths :: real
  unassignedColumnsCount :: nat
  lastFrozenIdx :: int

definition sizeColumn ::
  "('r, 'f) metrics \<Rightarrow> (col_width, 'r, 'f) column \<Rightarrow> (real option, 'r, 'f) column" where
  "sizeColumn m c =
     (let w = map_option (\<lambda>w. clampColumnWidth w c (minColumnWidth m))
                (getSpecifiedWidth c (columnWidths m) (viewportWidth m));
          grouped = (case rawGroupBy m of None \<Rightarrow> False | Some gb \<Rightarrow> arrayIncludes gb (key c))
      in \<lparr> key = key c, name = name c, width = w,
           minWidth = minWidth c, maxWidth = maxWidth c,
           frozen = (if grouped then True else frozen c),
           rowGroup = (if grouped then True else rowGroup c),
           sortable = column.sortable c, resizable = column.resizable c,
           formatter = column.formatter c, groupFormatter = column.groupFormatter c,
           editor = editor c, editable = editable c,
           onCellKeyDown = onCellKeyDown c, onNavigation = onNavigation c \<rparr>)"

fun sizeColumns ::
  "('r, 'f) metrics \<Rightarrow> (col_width, 'r, 'f) column list \<Rightarrow> pass1_state \<Rightarrow>
   (real option, 'r, 'f) column list \<times> pass1_state" where
  "sizeColumns m [] st = ([], st)"
| "sizeColumns m (c # cs) st =
     (let c' = sizeColumn m c;
          st1 = (case column.width c' of
                   None \<Rightarrow> st\<lparr> unassignedColumnsCount := unassignedColumnsCount st + 1 \<rparr>
                 | Some w \<Rightarrow> st\<lparr> allocatedWidths := allocatedWidths st + w \<rparr>);
          st2 = (if frozen c' then st1\<lparr> lastFrozenIdx := lastFrozenIdx st1 + 1 \<rparr> else st1);
          (rest, st3) = sizeColumns m cs st2
      in (c' # rest, st3))"

text \<open>
  The comparator handed to \<^verbatim>\<open>columns.sort\<close>: negative when the first column goes
  first, positive when the second does, zero for a tie.
\<close>

definition compareColumns ::
  "string list option \<Rightarrow> ('w, 'r, 'f) column \<Rightarrow> ('w, 'r, 'f) column \<Rightarrow> int" where
  "compareColumns gbo a b =
     (let inGroupBy = (\<lambda>k. case gbo of None \<Rightarrow> False | Some gb \<Rightarrow> arrayIncludes gb k);
          gb = (case gbo of None \<Rightarrow> [] | Some gb \<Rightarrow> gb)
      in if key a = SELECT_COLUMN_KEY then -1
         else if key b = SELECT_COLUMN_KEY then 1
         else if inGroupBy (key a) then
           (if inGroupBy (key b) then indexOf gb (key a) - indexOf gb (key b) else -1)
         else if inGroupBy (key b) then 1
         else if frozen a then (if frozen b then 0 else -1)
         else if frozen b then 1
         else 0)"

text \<open>
  \<^verbatim>\<open>Array.prototype.sort\<close> with a comparator is a stable sort: elements the
  comparator does not separate keep their order. It is modelled as the stable insertion
  sort, which places an element before the first one it does not have to follow. When
  the comparator orders consistently, every stable sort returns the same list, so the
  algorithm is not observable; \<open>compareColumns\<close> orders consistently when at most one
  column carries the reserved key (column keys are unique), since it puts the reserved
  key first without looking at the other column.
\<close>

fun insertSorted :: "('a \<Rightarrow> 'a \<Rightarrow> int) \<Rightarrow> 'a \<Rightarrow> 'a list \<Rightarrow> 'a list" where
  "insertSorted cmp x [] = [x]"
| "insertSorted cmp x (y # ys) =
     (if cmp x y \<le> 0 then x # y # ys else y # insertSorted cmp x ys)"

definition arraySort :: "('a \<Rightarrow> 'a \<Rightarrow> int) \<Rightarrow> 'a list \<Rightarrow> 'a list" where
  "arraySort cmp xs = foldr (insertSorted cmp) xs []"

text \<open>
  The second pass, \<^verbatim>\<open>columns.map((column, idx) => ...)\<close>, with the running
  \<^verbatim>\<open>left\<close>, \<^verbatim>\<open>totalWidth\<close> and the \<^verbatim>\<open>groupBy\<close> array it pushes to.
\<close>

record pass2_state =
  runningLeft :: real
  totalWidth :: real
  groupByKeys :: "string list"

definition calculateColumn ::
  "('r, 'f) metrics \<Rightarrow> real \<Rightarrow> (real option, 'r, 'f) column \<Rightarrow> nat \<Rightarrow> real \<Rightarrow>
   ('r, 'f) calculated_column" where
  "calculateColumn m unallocatedColumnWidth c i l =
     \<lparr> column = c,
       idx = i,
       width = (case column.width c of
                  Some w \<Rightarrow> w
                | None \<Rightarrow> clampColumnWidth unallocatedColumnWidth c (minColumnWidth m)),
       left = l,
       sortable = (case column.sortable c of Some b \<Rightarrow> b | None \<Rightarrow> defaultSortable m),
       resizable = (case column.resizable c of Some b \<Rightarrow> b | None \<Rightarrow> defaultResizable m),
       formatter = (case column.formatter c of Some f \<Rightarrow> f | None \<Rightarrow> defaultFormatter m),
       groupFormatter =
         (if rowGroup c
          then (case column.groupFormatter c of
                  Some f \<Rightarrow> Some f | None \<Rightarrow> Some ToggleGroupFormatter)
          else column.groupFormatter c),
       isLastFrozenColumn = False \<rparr>"

fun calculateColumns ::
  "('r, 'f) metrics \<Rightarrow> real \<Rightarrow> (real option, 'r, 'f) column list \<Rightarrow> nat \<Rightarrow> pass2_state \<Rightarrow>
   ('r, 'f) calculated_column list \<times> pass2_state" where
  "calculateColumns m u [] i st = ([], st)"
| "calculateColumns m u (c # cs) i st =
     (let newColumn = calculateColumn m u c i (runningLeft st);
          st1 = (if rowGroup c then st\<lparr> groupByKeys := groupByKeys st @ [key c] \<rparr> else st);
          st2 = st1\<lparr> totalWidth := totalWidth st1 + width newColumn,
                     runningLeft := runningLeft st1 + width newColumn \<rparr>;
          (rest, st3) = calculateColumns m u cs (i + 1) st2
      in (newColumn # rest, st3))"

text \<open>
  The end of \<^verbatim>\<open>getColumnMetrics\<close>: the column at \<^verbatim>\<open>lastFrozenColumnIndex\<close> is
  flagged and its right edge is the total frozen width. The index counts the frozen
  columns, so it lies inside the array (lemma \<open>lastFrozenColumnIndex_in_range\<close> below)
  and the read never yields \<^verbatim>\<open>undefined\<close>.
\<close>

definition markLastFrozenColumn ::
  "('r, 'f) calculated_column list \<Rightarrow> int \<Rightarrow> ('r, 'f) calculated_column list \<times> real" where
  "markLastFrozenColumn calculated lastIdx =
     (if lastIdx \<noteq> -1
      then (case elemAt calculated lastIdx of
              Some lastFrozenColumn \<Rightarrow>
                (calculated[nat lastIdx := lastFrozenColumn\<lparr> isLastFrozenColumn := True \<rparr>],
                 left lastFrozenColumn + width lastFrozenColumn)
            | None \<Rightarrow> (calculated, 0))
      else (calculated, 0))"

text \<open>
  \<^verbatim>\<open>getColumnMetrics\<close>. The width shared by the unassigned columns is
  \<^verbatim>\<open>Math.max(Math.floor(unallocatedWidth / unassignedColumnsCount), minColumnWidth)\<close>; it
  is read only for a column without a width, and then the count is positive (lemma
  \<open>unassigned_count_positive\<close> below), so the division by zero of the source is never
  observed.
\<close>

definition pass1_init :: pass1_state where
  "pass1_init = \<lparr> allocatedWidths = 0, unassignedColumnsCount = 0, lastFrozenIdx = -1 \<rparr>"

definition pass2_init :: pass2_state where
  "pass2_init = \<lparr> runningLeft = 0, totalWidth = 0, groupByKeys = [] \<rparr>"

definition unallocatedColumnWidth :: "('r, 'f) metrics \<Rightarrow> pass1_state \<Rightarrow> real" where
  "unallocatedColumnWidth m p1 =
     (let unallocatedWidth = viewportWidth m - allocatedWidths p1
      in max (of_int \<lfloor>unallocatedWidth / real (unassignedColumnsCount p1)\<rfloor>)
             (minColumnWidth m))"

definition getColumnMetrics :: "('r, 'f) metrics \<Rightarrow> ('r, 'f) column_metrics" where
  "getColumnMetrics m =
     (let (sized, p1) = sizeColumns m (rawColumns m) pass1_init;
          sorted = arraySort (compareColumns (rawGroupBy m)) sized;
          (calculated, p2) =
            calculateColumns m (unallocatedColumnWidth m p1) sorted 0 pass2_init;
          (marked, frozenWidth) = markLastFrozenColumn calculated (lastFrozenIdx p1)
      in \<lparr> columns = marked,
           lastFrozenColumnIndex = lastFrozenIdx p1,
           totalFrozenColumnWidth = frozenWidth,
           totalColumnWidth = totalWidth p2,
           groupBy = groupByKeys p2 \<rparr>)"

text \<open>The second pass as \<^verbatim>\<open>getColumnMetrics\<close> runs it, named for the proofs.\<close>

definition secondPass ::
  "('r, 'f) metrics \<Rightarrow> ('r, 'f) calculated_column list \<times> pass2_state" where
  "secondPass m =
     calculateColumns m
       (unallocatedColumnWidth m (snd (sizeColumns m (rawColumns m) pass1_init)))
       (arraySort (compareColumns (rawGroupBy m)) (map (sizeColumn m) (rawColumns m)))
       0 pass2_init"


subsection \<open>Definitions for the properties of the column order\<close>

text \<open>
  \<open>specColumnOrder\<close> is the order as the specification words it. \<open>columnRank\<close> and
  \<open>buckets\<close> serve the proof: the comparator orders columns by rank, and a stable sort by
  rank is the concatenation of the ranks' buckets.
\<close>

definition buckets :: "('a \<Rightarrow> nat) \<Rightarrow> nat list \<Rightarrow> 'a list \<Rightarrow> 'a list" where
  "buckets r is xs = concat (map (\<lambda>i. filter (\<lambda>x. r x = i) xs) is)"

definition inGroupBy :: "string list option \<Rightarrow> string \<Rightarrow> bool" where
  "inGroupBy gbo k = (case gbo of None \<Rightarrow> False | Some gb \<Rightarrow> arrayIncludes gb k)"

definition groupByList :: "string list option \<Rightarrow> string list" where
  "groupByList gbo = (case gbo of None \<Rightarrow> [] | Some gb \<Rightarrow> gb)"

definition specColumnOrder ::
  "string list option \<Rightarrow> ('w, 'r, 'f) column list \<Rightarrow> ('w, 'r, 'f) column list" where
  "specColumnOrder gbo cs =
     filter (\<lambda>c. key c = SELECT_COLUMN_KEY) cs
     @ concat (map (\<lambda>j. filter (\<lambda>c. key c \<noteq> SELECT_COLUMN_KEY \<and>
                                     indexOf (groupByList gbo) (key c) = int j) cs)
                   [0..<length (groupByList gbo)])
     @ filter (\<lambda>c. key c \<noteq> SELECT_COLUMN_KEY \<and> \<not> inGroupBy gbo (key c) \<and> frozen c) cs
     @ filter (\<lambda>c. key c \<noteq> SELECT_COLUMN_KEY \<and> \<not> inGroupBy gbo (key c) \<and> \<not> frozen c) cs"

definition columnRank :: "string list option \<Rightarrow> ('w, 'r, 'f) column \<Rightarrow> nat" where
  "columnRank gbo c =
     (if key c = SELECT_COLUMN_KEY then 0
      else if inGroupBy gbo (key c) then Suc (nat (indexOf (groupByList gbo) (key c)))
      else if frozen c then Suc (length (groupByList gbo))
      else Suc (Suc (length (groupByList gbo))))"

text \<open>Concrete inputs: Scenario A of the specification, and a column list to sort.\<close>

definition plainColumn :: "string \<Rightarrow> col_width \<Rightarrow> (col_width, 'r, 'f) column" where
  "plainColumn k w =
     \<lparr> key = k, name = k, width = w, minWidth = None, maxWidth = None, frozen = False,
       rowGroup = False, sortable = None, resizable = None, formatter = None,
       groupFormatter = None, editor = None, editable = EditableUnset,
       onCellKeyDown = None, onNavigation = None \<rparr>"

definition scenarioA :: "(nat, unit) metrics" where
  "scenarioA =
     \<lparr> rawColumns = [plainColumn ''a'' (WidthNumber 100), plainColumn ''b'' WidthUnset],
       columnWidths = Map.empty, viewportWidth = 300, minColumnWidth = 80,
       defaultSortable = False, defaultResizable = False, defaultFormatter = ValueFormatter,
       rawGroupBy = None \<rparr>"

definition orderExample :: "(nat, unit) metrics" where
  "orderExample =
     \<lparr> rawColumns = [plainColumn ''d'' WidthUnset,
                     (plainColumn ''c'' WidthUnset)\<lparr> frozen := True \<rparr>,
                     plainColumn ''b'' WidthUnset,
                     (plainColumn ''select-row'' (WidthNumber 35))\<lparr> frozen := True \<rparr>,
                     plainColumn ''e'' WidthUnset,
                     plainColumn ''a'' WidthUnset],
       columnWidths = Map.empty, viewportWidth = 1000, minColumnWidth = 80,
       defaultSortable = False, defaultResizable = False, defaultFormatter = ValueFormatter,
       rawGroupBy = Some [''a'', ''b''] \<rparr>"


section \<open>Rows: grouping, flattening and the row window\<close>

text \<open>
  The caller's \<^verbatim>\<open>rowGrouper(rows, columnKey)\<close> returns an object from group value to
  rows. The engine only ever walks it with \<^verbatim>\<open>Object.entries\<close>, so it is modelled
  as the list of entries in enumeration order (the keys of an object are distinct).
\<close>

type_synonym 'r row_grouper = "'r list \<Rightarrow> string \<Rightarrow> (string \<times> 'r list) list"

text \<open>
  The tree \<^verbatim>\<open>groupRows\<close> builds: at the last key the children of a group are its rows,
  above it they are groups again. A group holds \<^verbatim>\<open>childRows\<close>, \<^verbatim>\<open>childGroups\<close>
  and \<^verbatim>\<open>startRowIndex\<close>.
\<close>

datatype 'r grouped = ChildRows "'r list" | Groups "(string \<times> 'r group) list"
  and 'r group = Group "'r list" "'r grouped" nat

text \<open>
  \<^verbatim>\<open>groupRows(rows, [groupByKey, ...remainingGroupByKeys], startRowIndex)\<close>: the first key
  and the remaining ones are separate arguments, since the function is only called with a
  non-empty key list. \<open>groupEntries\<close> is the \<^verbatim>\<open>for ... of Object.entries(...)\<close> loop
  with its counter \<^verbatim>\<open>groupRowsCount\<close>.
\<close>

function groupRows ::
    "'r row_grouper \<Rightarrow> 'r list \<Rightarrow> string \<Rightarrow> string list \<Rightarrow> nat \<Rightarrow>
     (string \<times> 'r group) list \<times> nat"
  and groupEntries ::
    "'r row_grouper \<Rightarrow> (string \<times> 'r list) list \<Rightarrow> string list \<Rightarrow> nat \<Rightarrow> nat \<Rightarrow>
     (string \<times> 'r group) list \<times> nat" where
  "groupRows grouper rs groupByKey remainingGroupByKeys startIdx =
     groupEntries grouper (grouper rs groupByKey) remainingGroupByKeys startIdx 0"
| "groupEntries grouper [] remainingGroupByKeys startIdx groupRowsCount = ([], groupRowsCount)"
| "groupEntries grouper ((k, childRs) # es) remainingGroupByKeys startIdx groupRowsCount =
     (let (childGroups, childRowsCount) =
            (case remainingGroupByKeys of
               [] \<Rightarrow> (ChildRows childRs, length childRs)
             | k' # ks' \<Rightarrow>
                 (let (gs, n) = groupRows grouper childRs k' ks' (startIdx + groupRowsCount + 1)
                  in (Groups gs, n)));
          (rest, total) = groupEntries grouper es remainingGroupByKeys startIdx
                            (groupRowsCount + childRowsCount + 1)
      in ((k, Group childRs childGroups (startIdx + groupRowsCount)) # rest, total))"
  by pat_completeness auto
termination
  by (relation "measures [
        (\<lambda>x. case x of Inl (_, _, _, ks, _) \<Rightarrow> 2 * length ks + 1
                      | Inr (_, _, ks, _, _) \<Rightarrow> 2 * length ks),
        (\<lambda>x. case x of Inl _ \<Rightarrow> 0 | Inr (_, es, _, _, _) \<Rightarrow> length es)]") auto

text \<open>A group header of the flattened sequence, and an entry of that sequence.\<close>

record 'r group_row =
  id :: string
  parentId :: "string option"
  groupKey :: string
  isExpanded :: bool
  childRows :: "'r list"
  level :: nat
  posInSet :: nat
  startRowIndex :: nat
  setSize :: nat

datatype 'r flat_row = Row 'r | GroupRow "'r group_row"

text \<open>
  \<^verbatim>\<open>expandGroup\<close> pushes to \<^verbatim>\<open>flattenedRows\<close> and adds to the set
  \<^verbatim>\<open>allGroupRows\<close>; both are threaded through. \<open>expandEntries\<close> is the
  \<^verbatim>\<open>Object.keys(rows).forEach((groupKey, posInSet, keys) => ...)\<close> loop, with
  \<open>keysLength\<close> for \<^verbatim>\<open>keys.length\<close>.
\<close>

record 'r flatten_state =
  flattenedRows :: "'r flat_row list"
  allGroupRows :: "'r group_row list"

definition groupId :: "string option \<Rightarrow> string \<Rightarrow> string" where
  "groupId parent k = (case parent of Some p \<Rightarrow> p @ ''__'' @ k | None \<Rightarrow> k)"

definition isExpandedId :: "string set option \<Rightarrow> string \<Rightarrow> bool" where
  "isExpandedId expandedGroupIds i =
     (case expandedGroupIds of Some ids \<Rightarrow> i \<in> ids | None \<Rightarrow> False)"

fun expandGroup ::
    "string set option \<Rightarrow> 'r grouped \<Rightarrow> string option \<Rightarrow> nat \<Rightarrow> 'r flatten_state \<Rightarrow>
     'r flatten_state"
  and expandEntries ::
    "string set option \<Rightarrow> (string \<times> 'r group) list \<Rightarrow> nat \<Rightarrow> nat \<Rightarrow> string option \<Rightarrow> nat \<Rightarrow>
     'r flatten_state \<Rightarrow> 'r flatten_state" where
  "expandGroup ex (ChildRows rs) parent lvl st =
     st\<lparr> flattenedRows := flattenedRows st @ map Row rs \<rparr>"
| "expandGroup ex (Groups es) parent lvl st = expandEntries ex es 0 (length es) parent lvl st"
| "expandEntries ex [] pos keysLength parent lvl st = st"
| "expandEntries ex ((k, Group childRs childGroups startIdx) # es) pos keysLength parent lvl st =
     (let groupRow = \<lparr> id = groupId parent k, parentId = parent, groupKey = k,
                       isExpanded = isExpandedId ex (groupId parent k), childRows = childRs,
                       level = lvl, posInSet = pos, startRowIndex = startIdx,
                       setSize = keysLength \<rparr>;
          st1 = st\<lparr> flattenedRows := flattenedRows st @ [GroupRow groupRow],
                    allGroupRows := allGroupRows st @ [groupRow] \<rparr>;
          st2 = (if isExpanded groupRow
                 then expandGroup ex childGroups (Some (groupId parent k)) (lvl + 1) st1
                 else st1)
      in expandEntries ex es (pos + 1) keysLength parent lvl st2)"

text \<open>The group rows among the entries of a flattened sequence, in order.\<close>

fun groupRowsOf :: "'r flat_row list \<Rightarrow> 'r group_row list" where
  "groupRowsOf [] = []"
| "groupRowsOf (Row r # xs) = groupRowsOf xs"
| "groupRowsOf (GroupRow g # xs) = g # groupRowsOf xs"

text \<open>
  \<^verbatim>\<open>isGroupRow(row)\<close> is membership in \<^verbatim>\<open>allGroupRows\<close>. The set holds exactly
  the group rows that were pushed to the flattened sequence (lemma
  \<open>expandGroup_allGroupRows\<close> below), and a raw row or \<^verbatim>\<open>undefined\<close> is never in
  it, so on an entry of the sequence the test is the test for a group header.
\<close>

definition isGroupRow :: "'r flat_row option \<Rightarrow> bool" where
  "isGroupRow r = (case r of Some (GroupRow _) \<Rightarrow> True | _ \<Rightarrow> False)"

definition RENDER_BACTCH_SIZE :: int where
  "RENDER_BACTCH_SIZE = 8"

definition overscanThreshold :: int where
  "overscanThreshold = 4"

definition rowVisibleStartIdx :: "real \<Rightarrow> real \<Rightarrow> int" where
  "rowVisibleStartIdx scrollTop rowHeight = \<lfloor>scrollTop / rowHeight\<rfloor>"

definition rowVisibleEndIdx :: "nat \<Rightarrow> real \<Rightarrow> real \<Rightarrow> real \<Rightarrow> int" where
  "rowVisibleEndIdx len scrollTop clientHeight rowHeight =
     min (int len - 1) \<lfloor>(scrollTop + clientHeight) / rowHeight\<rfloor>"

record 'r viewport_rows =
  rowOverscanStartIdx :: int
  rowOverscanEndIdx :: int
  rows :: "'r flat_row list"
  rowsCount :: nat

text \<open>
  \<^verbatim>\<open>useViewportRows\<close>: the grouped tree (absent without group-by keys or without a
  grouper), the flattened rows, and the overscan window.
\<close>

definition groupedRows ::
  "'r list \<Rightarrow> string list \<Rightarrow> 'r row_grouper option \<Rightarrow> (string \<times> 'r group) list option \<times> nat" where
  "groupedRows rawRs gb grouper =
     (case (gb, grouper) of
        (k # ks, Some g) \<Rightarrow> (let (gs, n) = groupRows g rawRs k ks 0 in (Some gs, n))
      | _ \<Rightarrow> (None, length rawRs))"

definition flattenRows ::
  "'r list \<Rightarrow> (string \<times> 'r group) list option \<Rightarrow> string set option \<Rightarrow> 'r flatten_state" where
  "flattenRows rawRs grouped ex =
     (case grouped of
        None \<Rightarrow> \<lparr> flattenedRows = map Row rawRs, allGroupRows = [] \<rparr>
      | Some gs \<Rightarrow> expandGroup ex (Groups gs) None 0 \<lparr> flattenedRows = [], allGroupRows = [] \<rparr>)"

definition useViewportRows ::
  "'r list \<Rightarrow> real \<Rightarrow> real \<Rightarrow> real \<Rightarrow> string list \<Rightarrow> 'r row_grouper option \<Rightarrow>
   string set option \<Rightarrow> 'r viewport_rows" where
  "useViewportRows rawRs rowHeight clientHeight scrollTop gb grouper ex =
     (let (grouped, count) = groupedRows rawRs gb grouper;
          flat = flattenedRows (flattenRows rawRs grouped ex);
          visibleStart = rowVisibleStartIdx scrollTop rowHeight;
          visibleEnd = rowVisibleEndIdx (length flat) scrollTop clientHeight rowHeight
      in \<lparr> rowOverscanStartIdx =
             max 0 (\<lfloor>real_of_int (visibleStart - overscanThreshold)
                      / real_of_int RENDER_BACTCH_SIZE\<rfloor> * RENDER_BACTCH_SIZE),
           rowOverscanEndIdx =
             min (int (length flat) - 1)
                 (\<lceil>real_of_int (visibleEnd + overscanThreshold)
                     / real_of_int RENDER_BACTCH_SIZE\<rceil> * RENDER_BACTCH_SIZE),
           rows = flat,
           rowsCount = count \<rparr>)"

text \<open>
  The traversal as the specification words it: depth first, in insertion order, a header
  for every group that is reached, and the content below a group only when its id is in
  the expanded set.
\<close>

fun specFlatten ::
    "string set option \<Rightarrow> 'r grouped \<Rightarrow> string option \<Rightarrow> nat \<Rightarrow> 'r flat_row list"
  and specFlattenGroups ::
    "string set option \<Rightarrow> (string \<times> 'r group) list \<Rightarrow> nat \<Rightarrow> nat \<Rightarrow> string option \<Rightarrow> nat \<Rightarrow>
     'r flat_row list" where
  "specFlatten ex (ChildRows rs) parent lvl = map Row rs"
| "specFlatten ex (Groups es) parent lvl = specFlattenGroups ex es 0 (length es) parent lvl"
| "specFlattenGroups ex [] pos n parent lvl = []"
| "specFlattenGroups ex ((k, Group childRs childGroups startIdx) # es) pos n parent lvl =
     GroupRow \<lparr> id = groupId parent k, parentId = parent, groupKey = k,
                isExpanded = isExpandedId ex (groupId parent k), childRows = childRs,
                level = lvl, posInSet = pos, startRowIndex = startIdx, setSize = n \<rparr>
     # (if isExpandedId ex (groupId parent k)
        then specFlatten ex childGroups (Some (groupId parent k)) (lvl + 1)
        else [])
     @ specFlattenGroups ex es (pos + 1) n parent lvl"

section \<open>The grid: selection, navigation, editing, copy and paste\<close>

text \<open>
  \<^verbatim>\<open>DataGrid\<close> is a function component: its handlers are closures over the values of
  one render. \<open>data_grid\<close> holds those values: the props the handlers read and the
  results of \<^verbatim>\<open>useViewportColumns\<close> and \<^verbatim>\<open>useViewportRows\<close>. A callback prop is
  a flag (supplied or not) when the engine only calls it, and a function when the engine
  uses what it returns; every call of a callback is recorded as an effect.
\<close>

datatype js_error = MissingKeyGetter | TypeError

datatype cell_navigation_mode = NONE | CHANGE_ROW | LOOP_OVER_ROW

record position =
  idx :: int
  rowIdx :: int

text \<open>
  The selected position is \<^verbatim>\<open>{idx, rowIdx, mode: 'SELECT'}\<close> or
  \<^verbatim>\<open>{idx, rowIdx, mode: 'EDIT', key, row, originalRow}\<close>.
\<close>

datatype 'r cell_mode = SELECT | EDIT "string option" 'r 'r

record 'r selected_position = position +
  mode :: "'r cell_mode"

record 'r copied_cell =
  row :: "'r option"
  columnKey :: string

record 'r paste_event =
  sourceRow :: "'r option"
  sourceColumnKey :: string
  targetRow :: "'r option"
  targetColumnKey :: string

datatype ('r, 'k) effect =
    RowsChange "'r option list"
  | SelectedCellChange position
  | SelectedRowsChange "'k set"
  | ExpandedGroupIdsChange "string set"
  | PreventDefault

record ('r, 'f, 'k) data_grid =
  rawRows :: "'r list"
  rowKeyGetter :: "('r option \<Rightarrow> 'k) option"
  onRowsChange :: bool
  rowHeight :: real
  clientHeight :: real
  selectedRows :: "'k set option"
  onSelectedRowsChange :: bool
  rowGrouper :: "'r row_grouper option"
  expandedGroupIds :: "string set option"
  onExpandedGroupIdsChange :: bool
  onSelectedCellChange :: bool
  onPaste :: "('r paste_event \<Rightarrow> 'r) option"
  cellNavigationMode :: cell_navigation_mode
  viewportColumns :: "('r, 'f) column_metrics"
  viewportRows :: "'r viewport_rows"

text \<open>
  The state the handlers change: \<^verbatim>\<open>selectedPosition\<close>, \<^verbatim>\<open>copiedCell\<close> and
  \<^verbatim>\<open>draggedOverRowIdx\<close> (React state) and the ref \<^verbatim>\<open>lastSelectedRowIdx\<close>.
\<close>

record 'r grid_state =
  selectedPosition :: "'r selected_position"
  copiedCell :: "'r copied_cell option"
  draggedOverRowIdx :: "int option"
  lastSelectedRowIdx :: int

text \<open>
  A handler returns the new state and the effects, or the error it throws together with
  the effects that happened before the throw.
\<close>

type_synonym ('r, 'k) outcome =
  "(js_error \<times> ('r, 'k) effect list) + ('r grid_state \<times> ('r, 'k) effect list)"

definition unselected :: "'r selected_position" where
  "unselected = \<lparr> idx = -1, rowIdx = -1, mode = SELECT \<rparr>"

definition initialState :: "'r grid_state" where
  "initialState = \<lparr> selectedPosition = unselected, copiedCell = None,
                    draggedOverRowIdx = None, lastSelectedRowIdx = -1 \<rparr>"

definition gridColumns :: "('r, 'f, 'k) data_grid \<Rightarrow> ('r, 'f) calculated_column list" where
  "gridColumns g = columns (viewportColumns g)"

definition gridRows :: "('r, 'f, 'k) data_grid \<Rightarrow> 'r flat_row list" where
  "gridRows g = rows (viewportRows g)"

definition hasGroups :: "('r, 'f, 'k) data_grid \<Rightarrow> bool" where
  "hasGroups g = (groupBy (viewportColumns g) \<noteq> [] \<and> rowGrouper g \<noteq> None)"

definition minColIdx :: "('r, 'f, 'k) data_grid \<Rightarrow> int" where
  "minColIdx g = (if hasGroups g then -1 else 0)"

definition assertIsValidKeyGetter :: "'a option \<Rightarrow> js_error + 'a" where
  "assertIsValidKeyGetter keyGetter =
     (case keyGetter of None \<Rightarrow> Inl MissingKeyGetter | Some f \<Rightarrow> Inr f)"

subsection \<open>Keyboard helpers\<close>

definition isKeyPrintable :: "nat \<Rightarrow> bool" where
  "isKeyPrintable keycode =
     ((47 < keycode \<and> keycode < 58) \<or> keycode = 32 \<or> keycode = 13
      \<or> (64 < keycode \<and> keycode < 91) \<or> (95 < keycode \<and> keycode < 112)
      \<or> (185 < keycode \<and> keycode < 193) \<or> (218 < keycode \<and> keycode < 223))"

definition isCtrlKeyHeldDown :: "key_event \<Rightarrow> bool" where
  "isCtrlKeyHeldDown e = ((ctrlKey e \<or> metaKey e) \<and> eventKey e \<noteq> ''Control'')"

definition isDefaultCellInput :: "key_event \<Rightarrow> bool" where
  "isDefaultCellInput e =
     (isKeyPrintable (keyCode e)
      \<or> arrayIncludes [''Enter'', ''F2'', ''Backspace'', ''Delete''] (eventKey e))"

definition onEditorNavigation :: "key_event \<Rightarrow> bool" where
  "onEditorNavigation e = (eventKey e = ''Tab'' \<and> targetIsLoneEditorInput e)"

subsection \<open>Bounds and editability\<close>

definition isCellWithinBounds ::
  "('r, 'f, 'k) data_grid \<Rightarrow> 'a position_scheme \<Rightarrow> bool" where
  "isCellWithinBounds g p =
     (0 \<le> rowIdx p \<and> rowIdx p < int (length (gridRows g))
      \<and> minColIdx g \<le> idx p \<and> idx p < int (length (gridColumns g)))"

text \<open>The raw row behind an entry of the flattened sequence, as a callback receives it.\<close>

definition rawRowOf :: "'r flat_row option \<Rightarrow> 'r option" where
  "rawRowOf r = (case r of Some (Row x) \<Rightarrow> Some x | _ \<Rightarrow> None)"

text \<open>
  \<^verbatim>\<open>isSelectedCellEditable\<close> reads \<^verbatim>\<open>columns[selectedPosition.idx].editor\<close>: when no
  column is at that index (index \<open>-1\<close> of a grouped grid) the read throws a
  \<^verbatim>\<open>TypeError\<close>.
\<close>

definition isSelectedCellEditable ::
  "('r, 'f, 'k) data_grid \<Rightarrow> 'a position_scheme \<Rightarrow> js_error + bool" where
  "isSelectedCellEditable g p =
     (case elemAt (gridColumns g) (idx p) of
        None \<Rightarrow> Inl TypeError
      | Some c \<Rightarrow>
          (let r = elemAt (gridRows g) (rowIdx p)
           in Inr (editor (column c) \<noteq> None
                   \<and> \<not> rowGroup (column c)
                   \<and> \<not> isGroupRow r
                   \<and> (case editable (column c) of
                         EditableFn f \<Rightarrow> f (rawRowOf r)
                       | EditableFlag b \<Rightarrow> b
                       | EditableUnset \<Rightarrow> True))))"

definition isCellEditable ::
  "('r, 'f, 'k) data_grid \<Rightarrow> 'a position_scheme \<Rightarrow> js_error + bool" where
  "isCellEditable g p =
     (if isCellWithinBounds g p then isSelectedCellEditable g p else Inr False)"

text \<open>
  \<^verbatim>\<open>getRawRowIdx\<close>: with groups, \<^verbatim>\<open>rawRows.indexOf(rows[rowIdx])\<close>; a group header
  and \<^verbatim>\<open>undefined\<close> are not among the raw rows, so the search answers \<open>-1\<close>.
\<close>

definition getRawRowIdx :: "('r, 'f, 'k) data_grid \<Rightarrow> int \<Rightarrow> int" where
  "getRawRowIdx g i =
     (if hasGroups g
      then (case elemAt (gridRows g) i of
              Some (Row r) \<Rightarrow> indexOf (rawRows g) r
            | _ \<Rightarrow> -1)
      else i)"

subsection \<open>Editing\<close>

text \<open>
  \<^verbatim>\<open>closeEditor\<close> tests the mode of the position of the current render and then calls
  \<^verbatim>\<open>setSelectedPosition\<close> with an updater function, which React applies to the pending
  state: the state after the updates queued before it. The first argument is the state
  of the render, the second the pending state.
\<close>

definition closeEditor :: "'r grid_state \<Rightarrow> 'r grid_state \<Rightarrow> 'r grid_state" where
  "closeEditor s pending =
     (case mode (selectedPosition s) of
        SELECT \<Rightarrow> pending
      | EDIT k r orig \<Rightarrow>
          pending\<lparr> selectedPosition :=
                     \<lparr> idx = idx (selectedPosition pending),
                       rowIdx = rowIdx (selectedPosition pending),
                       mode = SELECT \<rparr> \<rparr>)"

definition commitEditorChanges ::
  "('r, 'f, 'k) data_grid \<Rightarrow> 'r grid_state \<Rightarrow> ('r, 'k) effect list" where
  "commitEditorChanges g s =
     (case elemAt (gridColumns g) (idx (selectedPosition s)) of
        None \<Rightarrow> []
      | Some c \<Rightarrow>
          if editor (column c) = None then []
          else (case mode (selectedPosition s) of
                  SELECT \<Rightarrow> []
                | EDIT k r orig \<Rightarrow>
                    if r = orig then []
                    else if onRowsChange g
                    then [RowsChange (assignAt (rawRows g)
                                        (getRawRowIdx g (rowIdx (selectedPosition s))) r)]
                    else []))"

text \<open>
  \<^verbatim>\<open>selectCell(position, enableEditor)\<close>. The editor opens on
  \<^verbatim>\<open>rows[position.rowIdx]\<close>; \<^verbatim>\<open>isCellEditable\<close> holds only when that entry is a raw
  row (lemma \<open>isCellEditable_row\<close> below), so the other cases of the read are not reached.
\<close>

definition selectCell ::
  "('r, 'f, 'k) data_grid \<Rightarrow> 'r grid_state \<Rightarrow> position \<Rightarrow> bool \<Rightarrow> ('r, 'k) outcome" where
  "selectCell g s p enableEditor =
     (if \<not> isCellWithinBounds g p then Inr (s, [])
      else
        (let committed = commitEditorChanges g s;
             notify = (if onSelectedCellChange g then [SelectedCellChange p] else [])
         in case (if enableEditor then isCellEditable g p else Inr False) of
              Inl e \<Rightarrow> Inl (e, committed)
            | Inr True \<Rightarrow>
                (case elemAt (gridRows g) (rowIdx p) of
                   Some (Row r) \<Rightarrow>
                     Inr (s\<lparr> selectedPosition :=
                               \<lparr> idx = idx p, rowIdx = rowIdx p, mode = EDIT None r r \<rparr> \<rparr>,
                          committed @ notify)
                 | _ \<Rightarrow>
                     Inr (s\<lparr> selectedPosition :=
                               \<lparr> idx = idx p, rowIdx = rowIdx p, mode = SELECT \<rparr> \<rparr>,
                          committed @ notify))
            | Inr False \<Rightarrow>
                Inr (s\<lparr> selectedPosition :=
                          \<lparr> idx = idx p, rowIdx = rowIdx p, mode = SELECT \<rparr> \<rparr>,
                     committed @ notify)))"

definition handleRowChange ::
  "('r, 'f, 'k) data_grid \<Rightarrow> 'r grid_state \<Rightarrow> 'r \<Rightarrow> bool \<Rightarrow> 'r grid_state \<times> ('r, 'k) effect list" where
  "handleRowChange g s r commitChanges =
     (case mode (selectedPosition s) of
        SELECT \<Rightarrow> (s, [])
      | EDIT k staged orig \<Rightarrow>
          if commitChanges
          then (closeEditor s s,
                if onRowsChange g
                then [RowsChange (assignAt (rawRows g)
                                    (getRawRowIdx g (rowIdx (selectedPosition s))) r)]
                else [])
          else (s\<lparr> selectedPosition := (selectedPosition s)\<lparr> mode := EDIT k r orig \<rparr> \<rparr>, []))"

definition handleOnClose ::
  "('r, 'f, 'k) data_grid \<Rightarrow> 'r grid_state \<Rightarrow> bool \<Rightarrow> 'r grid_state \<times> ('r, 'k) effect list" where
  "handleOnClose g s commitChanges =
     (closeEditor s s, if commitChanges then commitEditorChanges g s else [])"

subsection \<open>Copy and paste\<close>

definition handleCopy :: "('r, 'f, 'k) data_grid \<Rightarrow> 'r grid_state \<Rightarrow> ('r, 'k) outcome" where
  "handleCopy g s =
     (let p = selectedPosition s
      in case elemAt (gridColumns g) (idx p) of
           None \<Rightarrow> Inl (TypeError, [])
         | Some c \<Rightarrow>
             Inr (s\<lparr> copiedCell :=
                       Some \<lparr> row = elemAt (rawRows g) (getRawRowIdx g (rowIdx p)),
                              columnKey = key (column c) \<rparr> \<rparr>, []))"

definition handlePaste :: "('r, 'f, 'k) data_grid \<Rightarrow> 'r grid_state \<Rightarrow> ('r, 'k) outcome" where
  "handlePaste g s =
     (let p = selectedPosition s;
          target = elemAt (rawRows g) (getRawRowIdx g (rowIdx p))
      in case onPaste g of
           None \<Rightarrow> Inr (s, [])
         | Some paste \<Rightarrow>
             if \<not> onRowsChange g then Inr (s, [])
             else (case copiedCell s of
                     None \<Rightarrow> Inr (s, [])
                   | Some copied \<Rightarrow>
                       (case isCellEditable g p of
                          Inl e \<Rightarrow> Inl (e, [])
                        | Inr False \<Rightarrow> Inr (s, [])
                        | Inr True \<Rightarrow>
                            (case elemAt (gridColumns g) (idx p) of
                               None \<Rightarrow> Inl (TypeError, [])
                             | Some c \<Rightarrow>
                                 (let updatedTargetRow =
                                        paste \<lparr> sourceRow = row copied,
                                                sourceColumnKey = columnKey copied,
                                                targetRow = target,
                                                targetColumnKey = key (column c) \<rparr>
                                  in Inr (s, [RowsChange (assignAt (rawRows g) (rowIdx p)
                                                            updatedTargetRow)]))))))"

subsection \<open>Navigation\<close>

text \<open>
  The search of \<^verbatim>\<open>getNextPosition\<close> for the parent of a collapsed group row:
  \<^verbatim>\<open>for (let i = rowIdx - 1; i >= 0; i--)\<close>, stopping at the first group row whose id is
  the parent id; \<open>-1\<close> when there is none. The argument counts the indices still to visit.
\<close>

fun findParentRowIdx :: "'r flat_row list \<Rightarrow> string option \<Rightarrow> nat \<Rightarrow> int" where
  "findParentRowIdx rs parent 0 = -1"
| "findParentRowIdx rs parent (Suc i) =
     (case elemAt rs (int i) of
        Some (GroupRow gr) \<Rightarrow>
          if Some (id gr) = parent then int i else findParentRowIdx rs parent i
      | _ \<Rightarrow> findParentRowIdx rs parent i)"

definition keyPosition ::
  "('r, 'f, 'k) data_grid \<Rightarrow> 'r grid_state \<Rightarrow> string \<Rightarrow> bool \<Rightarrow> bool \<Rightarrow> position" where
  "keyPosition g s k ctrl shift =
     (let i = idx (selectedPosition s);
          r = rowIdx (selectedPosition s);
          isRowSelected = (isCellWithinBounds g (selectedPosition s) \<and> i = -1);
          lastCol = int (length (gridColumns g)) - 1;
          lastRow = int (length (gridRows g)) - 1
      in if k = ''ArrowUp'' then \<lparr> idx = i, rowIdx = r - 1 \<rparr>
         else if k = ''ArrowDown'' then \<lparr> idx = i, rowIdx = r + 1 \<rparr>
         else if k = ''ArrowLeft'' then \<lparr> idx = i - 1, rowIdx = r \<rparr>
         else if k = ''ArrowRight'' then \<lparr> idx = i + 1, rowIdx = r \<rparr>
         else if k = ''Tab'' then
           (if i = -1 \<and> r = -1
            then (if shift then \<lparr> idx = lastCol, rowIdx = lastRow \<rparr> else \<lparr> idx = 0, rowIdx = 0 \<rparr>)
            else \<lparr> idx = i + (if shift then -1 else 1), rowIdx = r \<rparr>)
         else if k = ''Home'' then
           (if isRowSelected then \<lparr> idx = i, rowIdx = 0 \<rparr>
            else if ctrl then \<lparr> idx = 0, rowIdx = 0 \<rparr> else \<lparr> idx = 0, rowIdx = r \<rparr>)
         else if k = ''End'' then
           (if isRowSelected then \<lparr> idx = i, rowIdx = lastRow \<rparr>
            else if ctrl then \<lparr> idx = lastCol, rowIdx = lastRow \<rparr>
            else \<lparr> idx = lastCol, rowIdx = r \<rparr>)
         else if k = ''PageUp'' then \<lparr> idx = i, rowIdx = r - \<lfloor>clientHeight g / rowHeight g\<rfloor> \<rparr>
         else if k = ''PageDown'' then \<lparr> idx = i, rowIdx = r + \<lfloor>clientHeight g / rowHeight g\<rfloor> \<rparr>
         else \<lparr> idx = i, rowIdx = r \<rparr>)"

text \<open>
  \<^verbatim>\<open>getNextPosition(key, ctrlKey, shiftKey)\<close>: the jump from a collapsed group row to
  its parent first, then the \<^verbatim>\<open>switch\<close> on the key (\<open>keyPosition\<close>).
\<close>

definition getNextPosition ::
  "('r, 'f, 'k) data_grid \<Rightarrow> 'r grid_state \<Rightarrow> string \<Rightarrow> bool \<Rightarrow> bool \<Rightarrow> position" where
  "getNextPosition g s k ctrl shift =
     (let i = idx (selectedPosition s);
          r = rowIdx (selectedPosition s);
          isRowSelected = (isCellWithinBounds g (selectedPosition s) \<and> i = -1)
      in case elemAt (gridRows g) r of
           Some (GroupRow gr) \<Rightarrow>
             if k = ''ArrowLeft'' \<and> isRowSelected \<and> \<not> isExpanded gr \<and> level gr \<noteq> 0
             then (let parentRowIdx = findParentRowIdx (gridRows g) (parentId gr) (nat r)
                   in if parentRowIdx \<noteq> -1 then \<lparr> idx = i, rowIdx = parentRowIdx \<rparr>
                      else keyPosition g s k ctrl shift)
             else keyPosition g s k ctrl shift
         | _ \<Rightarrow> keyPosition g s k ctrl shift)"

definition getNextSelectedCellPosition ::
  "cell_navigation_mode \<Rightarrow> ('r, 'f) calculated_column list \<Rightarrow> int \<Rightarrow> position \<Rightarrow> position" where
  "getNextSelectedCellPosition navMode cols rowsCnt nextPosition =
     (if navMode \<noteq> NONE then
        (let i = idx nextPosition;
             r = rowIdx nextPosition;
             columnsCount = int (length cols);
             isAfterLastColumn = (i = columnsCount);
             isBeforeFirstColumn = (i = -1)
         in if isAfterLastColumn then
              (if navMode = CHANGE_ROW then
                 (let isLastRow = (r = rowsCnt - 1)
                  in if \<not> isLastRow then \<lparr> idx = 0, rowIdx = r + 1 \<rparr> else nextPosition)
               else if navMode = LOOP_OVER_ROW then \<lparr> idx = 0, rowIdx = r \<rparr>
               else nextPosition)
            else if isBeforeFirstColumn then
              (if navMode = CHANGE_ROW then
                 (let isFirstRow = (r = 0)
                  in if \<not> isFirstRow then \<lparr> idx = columnsCount - 1, rowIdx = r - 1 \<rparr>
                     else nextPosition)
               else if navMode = LOOP_OVER_ROW then \<lparr> idx = columnsCount - 1, rowIdx = r \<rparr>
               else nextPosition)
            else nextPosition)
      else nextPosition)"

definition canExitGrid ::
  "cell_navigation_mode \<Rightarrow> ('r, 'f) calculated_column list \<Rightarrow> int \<Rightarrow> 'a position_scheme \<Rightarrow> bool \<Rightarrow>
   bool" where
  "canExitGrid navMode cols rowsCnt p shift =
     (if navMode = NONE \<or> navMode = CHANGE_ROW then
        (let atLastCellInRow = (idx p = int (length cols) - 1);
             atFirstCellInRow = (idx p = 0);
             atLastRow = (rowIdx p = rowsCnt - 1);
             atFirstRow = (rowIdx p = 0)
         in if shift then atFirstCellInRow \<and> atFirstRow else atLastCellInRow \<and> atLastRow)
      else False)"

text \<open>
  \<^verbatim>\<open>navigate(event)\<close>. In EDIT mode \<^verbatim>\<open>columns[idx].editorOptions\<close> is read, which
  throws when no column is at the index.
\<close>

definition navigate ::
  "('r, 'f, 'k) data_grid \<Rightarrow> 'r grid_state \<Rightarrow> key_event \<Rightarrow> ('r, 'k) outcome" where
  "navigate g s e =
     (let allowed =
            (case mode (selectedPosition s) of
               SELECT \<Rightarrow> Inr True
             | EDIT k r orig \<Rightarrow>
                 (case elemAt (gridColumns g) (idx (selectedPosition s)) of
                    None \<Rightarrow> Inl TypeError
                  | Some c \<Rightarrow>
                      Inr ((case onNavigation (column c) of
                              Some f \<Rightarrow> f | None \<Rightarrow> onEditorNavigation) e)))
      in case allowed of
           Inl err \<Rightarrow> Inl (err, [])
         | Inr False \<Rightarrow> Inr (s, [])
         | Inr True \<Rightarrow>
             (let nextPosition = getNextPosition g s (eventKey e) (isCtrlKeyHeldDown e) (shiftKey e);
                  rowsCnt = int (length (gridRows g))
              in if eventKey e = ''Tab''
                    \<and> canExitGrid (cellNavigationMode g) (gridColumns g) rowsCnt
                         (selectedPosition s) (shiftKey e)
                 then Inr (s, [])
                 else
                   (let navMode = (if eventKey e = ''Tab'' \<and> cellNavigationMode g = NONE
                                   then CHANGE_ROW else cellNavigationMode g);
                        target = getNextSelectedCellPosition navMode (gridColumns g) rowsCnt
                                   nextPosition
                    in case selectCell g s target False of
                         Inl (err, effs) \<Rightarrow> Inl (err, PreventDefault # effs)
                       | Inr (s', effs) \<Rightarrow> Inr (s', PreventDefault # effs))))"

subsection \<open>Keyboard input\<close>

definition handleCellInput ::
  "('r, 'f, 'k) data_grid \<Rightarrow> 'r grid_state \<Rightarrow> key_event \<Rightarrow> ('r, 'k) outcome" where
  "handleCellInput g s e =
     (let p = selectedPosition s;
          r = elemAt (gridRows g) (rowIdx p)
      in if \<not> isCellWithinBounds g p then Inr (s, [])
         else if isGroupRow r then Inr (s, [])
         else (case mode p of
                 EDIT k staged orig \<Rightarrow>
                   if eventKey e = ''Enter''
                   then Inr (closeEditor s s, commitEditorChanges g s)
                   else Inr (s, [])
               | SELECT \<Rightarrow>
                   (case elemAt (gridColumns g) (idx p) of
                      None \<Rightarrow> Inl (TypeError, [])
                    | Some c \<Rightarrow>
                        (let prevented =
                               (defaultPrevented e
                                \<or> (case onCellKeyDown (column c) of
                                      Some f \<Rightarrow> f e | None \<Rightarrow> False))
                         in if prevented then Inr (s, [])
                            else (case isCellEditable g p of
                                    Inl err \<Rightarrow> Inl (err, [])
                                  | Inr ed \<Rightarrow>
                                      if ed \<and> isDefaultCellInput e
                                      then (case r of
                                              Some (Row x) \<Rightarrow>
                                                Inr (s\<lparr> selectedPosition :=
                                                          \<lparr> idx = idx p, rowIdx = rowIdx p,
                                                            mode = EDIT (Some (eventKey e)) x x \<rparr> \<rparr>,
                                                     [])
                                            | _ \<Rightarrow> Inr (s, []))
                                      else Inr (s, []))))))"

text \<open>
  The \<^verbatim>\<open>ToggleGroup\<close> handler is subscribed only when
  \<^verbatim>\<open>onExpandedGroupIdsChange\<close> is supplied; without a subscriber the dispatch does
  nothing.
\<close>

definition toggleGroup :: "('r, 'f, 'k) data_grid \<Rightarrow> string \<Rightarrow> ('r, 'k) effect list" where
  "toggleGroup g expandedGroupId =
     (if \<not> onExpandedGroupIdsChange g then []
      else (let ids = (case expandedGroupIds g of Some ids \<Rightarrow> ids | None \<Rightarrow> {})
            in [ExpandedGroupIdsChange
                  (if expandedGroupId \<in> ids then ids - {expandedGroupId}
                   else insert expandedGroupId ids)]))"

text \<open>
  \<^verbatim>\<open>handleKeyDown(event)\<close>: copy and paste first, then the toggle of a focused group
  row, then the \<^verbatim>\<open>switch\<close> on the key (\<open>keyDownSwitch\<close>).
\<close>

definition keyDownSwitch ::
  "('r, 'f, 'k) data_grid \<Rightarrow> 'r grid_state \<Rightarrow> key_event \<Rightarrow> ('r, 'k) outcome" where
  "keyDownSwitch g s e =
     (if eventKey e = ''Escape'' then Inr (closeEditor s (s\<lparr> copiedCell := None \<rparr>), [])
      else if arrayIncludes [''ArrowUp'', ''ArrowDown'', ''ArrowLeft'', ''ArrowRight'',
                             ''Tab'', ''Home'', ''End'', ''PageUp'', ''PageDown''] (eventKey e)
      then navigate g s e
      else handleCellInput g s e)"

definition handleKeyDown ::
  "('r, 'f, 'k) data_grid \<Rightarrow> 'r grid_state \<Rightarrow> key_event \<Rightarrow> ('r, 'k) outcome" where
  "handleKeyDown g s e =
     (let p = selectedPosition s;
          r = elemAt (gridRows g) (rowIdx p);
          k = eventKey e
      in if onPaste g \<noteq> None \<and> isCtrlKeyHeldDown e \<and> isCellWithinBounds g p
            \<and> \<not> isGroupRow r \<and> idx p \<noteq> -1 \<and> mode p = SELECT
            \<and> (keyCode e = 67 \<or> keyCode e = 86)
         then (if keyCode e = 67 then handleCopy g s else handlePaste g s)
         else (case r of
                 Some (GroupRow gr) \<Rightarrow>
                   if isCellWithinBounds g p \<and> idx p = -1
                      \<and> ((k = ''ArrowLeft'' \<and> isExpanded gr) \<or> (k = ''ArrowRight'' \<and> \<not> isExpanded gr))
                   then Inr (s, PreventDefault # toggleGroup g (id gr))
                   else keyDownSwitch g s e
               | _ \<Rightarrow> keyDownSwitch g s e))"

subsection \<open>The checks at the end of every render\<close>

text \<open>
  Lines 1521 to 1529 of the bundle. Both tests read the position of the current render;
  the reset queues a new position and \<^verbatim>\<open>closeEditor\<close> queues an updater, which React
  applies to the position the reset left. No callback of the caller is invoked here: the
  list of effects is empty.
\<close>

definition resetOutOfBounds :: "('r, 'f, 'k) data_grid \<Rightarrow> 'r grid_state \<Rightarrow> 'r grid_state" where
  "resetOutOfBounds g s =
     (if int (length (gridColumns g)) \<le> idx (selectedPosition s)
         \<or> int (length (gridRows g)) \<le> rowIdx (selectedPosition s)
      then s\<lparr> selectedPosition := unselected, draggedOverRowIdx := None \<rparr>
      else s)"

definition isStaleEdit :: "('r, 'f, 'k) data_grid \<Rightarrow> 'r grid_state \<Rightarrow> bool" where
  "isStaleEdit g s =
     (case mode (selectedPosition s) of
        SELECT \<Rightarrow> False
      | EDIT k r orig \<Rightarrow>
          elemAt (gridRows g) (rowIdx (selectedPosition s)) \<noteq> Some (Row orig))"

definition renderChecks ::
  "('r, 'f, 'k) data_grid \<Rightarrow> 'r grid_state \<Rightarrow> 'r grid_state \<times> ('r, 'k) effect list" where
  "renderChecks g s =
     (let pending = resetOutOfBounds g s
      in (if isStaleEdit g s then closeEditor s pending else pending, []))"

subsection \<open>Row selection\<close>

text \<open>
  \<^verbatim>\<open>handleRowSelectionChange({rowIdx, checked, isShiftClick})\<close>. The rows strictly
  between the last toggled row and the clicked one are visited in the direction of the
  click.
\<close>

definition rowsBetween :: "int \<Rightarrow> int \<Rightarrow> int list" where
  "rowsBetween previousRowIdx i =
     (if previousRowIdx < i then [previousRowIdx + 1 .. i - 1]
      else rev [i + 1 .. previousRowIdx - 1])"

definition handleRowSelectionChange ::
  "('r, 'f, 'k) data_grid \<Rightarrow> 'r grid_state \<Rightarrow> int \<Rightarrow> bool \<Rightarrow> bool \<Rightarrow> ('r, 'k) outcome" where
  "handleRowSelectionChange g s i checked isShiftClick =
     (case assertIsValidKeyGetter (rowKeyGetter g) of
        Inl err \<Rightarrow> Inl (err, [])
      | Inr keyOf \<Rightarrow>
          (let selected = (case selectedRows g of Some ks \<Rightarrow> ks | None \<Rightarrow> {});
               r = elemAt (gridRows g) i
           in case r of
                Some (GroupRow gr) \<Rightarrow>
                  (let ks = set (map (\<lambda>c. keyOf (Some c)) (childRows gr))
                   in Inr (s, [SelectedRowsChange
                                 (if checked then selected \<union> ks else selected - ks)]))
              | _ \<Rightarrow>
                  (let rowKey = keyOf (rawRowOf r)
                   in if checked then
                        (let previousRowIdx = lastSelectedRowIdx s;
                             range = (if isShiftClick \<and> previousRowIdx \<noteq> -1 \<and> previousRowIdx \<noteq> i
                                      then filter (\<lambda>j. \<not> isGroupRow (elemAt (gridRows g) j))
                                             (rowsBetween previousRowIdx i)
                                      else [])
                         in Inr (s\<lparr> lastSelectedRowIdx := i \<rparr>,
                                 [SelectedRowsChange
                                    (insert rowKey selected
                                     \<union> set (map (\<lambda>j. keyOf (rawRowOf (elemAt (gridRows g) j)))
                                              range))]))
                      else Inr (s\<lparr> lastSelectedRowIdx := -1 \<rparr>,
                                [SelectedRowsChange (selected - {rowKey})]))))"

text \<open>
  A cell dispatches \<^verbatim>\<open>SelectRow\<close> on the event bus. The handler above is subscribed
  only when \<^verbatim>\<open>onSelectedRowsChange\<close> is supplied (the effect returns before
  \<^verbatim>\<open>eventBus.subscribe\<close> otherwise), and a dispatch without subscribers calls nothing.
\<close>

definition dispatchSelectRow ::
  "('r, 'f, 'k) data_grid \<Rightarrow> 'r grid_state \<Rightarrow> int \<Rightarrow> bool \<Rightarrow> bool \<Rightarrow> ('r, 'k) outcome" where
  "dispatchSelectRow g s i checked isShiftClick =
     (if \<not> onSelectedRowsChange g then Inr (s, [])
      else handleRowSelectionChange g s i checked isShiftClick)"

text \<open>
  \<^verbatim>\<open>handleAllRowsSelectionChange(checked)\<close> of the header row, whose \<^verbatim>\<open>rows\<close> prop is
  the raw row array.
\<close>

definition handleAllRowsSelectionChange ::
  "('r, 'f, 'k) data_grid \<Rightarrow> 'r grid_state \<Rightarrow> bool \<Rightarrow> ('r, 'k) outcome" where
  "handleAllRowsSelectionChange g s checked =
     (if \<not> onSelectedRowsChange g then Inr (s, [])
      else (case assertIsValidKeyGetter (rowKeyGetter g) of
              Inl err \<Rightarrow> Inl (err, [])
            | Inr keyOf \<Rightarrow>
                Inr (s, [SelectedRowsChange
                           (if checked then set (map (\<lambda>r. keyOf (Some r)) (rawRows g))
                            else {})])))"

subsection \<open>One render\<close>

text \<open>
  What \<^verbatim>\<open>DataGrid\<close> computes before its handlers exist: the column metrics (the
  group-by keys count only when a grouper is supplied) and the viewport rows, from the
  props the handlers also read, the metrics input and the scroll position.
\<close>

record ('r, 'k) handler_props =
  p_rawRows :: "'r list"
  p_rowKeyGetter :: "('r option \<Rightarrow> 'k) option"
  p_onRowsChange :: bool
  p_rowHeight :: real
  p_clientHeight :: real
  p_selectedRows :: "'k set option"
  p_onSelectedRowsChange :: bool
  p_rowGrouper :: "'r row_grouper option"
  p_expandedGroupIds :: "string set option"
  p_onExpandedGroupIdsChange :: bool
  p_onSelectedCellChange :: bool
  p_onPaste :: "('r paste_event \<Rightarrow> 'r) option"
  p_cellNavigationMode :: cell_navigation_mode

definition renderDataGrid ::
  "('r, 'k) handler_props \<Rightarrow> ('r, 'f) metrics \<Rightarrow> real \<Rightarrow> ('r, 'f, 'k) data_grid" where
  "renderDataGrid p m scrollTop =
     (let vc = getColumnMetrics
                 (m\<lparr> rawGroupBy := (if p_rowGrouper p \<noteq> None then rawGroupBy m else None) \<rparr>);
          vr = useViewportRows (p_rawRows p) (p_rowHeight p) (p_clientHeight p) scrollTop
                 (groupBy vc) (p_rowGrouper p) (p_expandedGroupIds p)
      in \<lparr> rawRows = p_rawRows p, rowKeyGetter = p_rowKeyGetter p,
           onRowsChange = p_onRowsChange p, rowHeight = p_rowHeight p,
           clientHeight = p_clientHeight p, selectedRows = p_selectedRows p,
           onSelectedRowsChange = p_onSelectedRowsChange p, rowGrouper = p_rowGrouper p,
           expandedGroupIds = p_expandedGroupIds p,
           onExpandedGroupIdsChange = p_onExpandedGroupIdsChange p,
           onSelectedCellChange = p_onSelectedCellChange p, onPaste = p_onPaste p,
           cellNavigationMode = p_cellNavigationMode p,
           viewportColumns = vc, viewportRows = vr \<rparr>)"

text \<open>
  The invariant of the selected position: the unselected sentinel, or a position within
  the bounds of the current rows and columns.
\<close>

definition positionInvariant :: "('r, 'f, 'k) data_grid \<Rightarrow> 'r grid_state \<Rightarrow> bool" where
  "positionInvariant g s =
     (selectedPosition s = unselected \<or> isCellWithinBounds g (selectedPosition s))"

text \<open>The state a handler leaves; a handler that throws leaves the state as it was.\<close>

definition stateAfter :: "'r grid_state \<Rightarrow> ('r, 'k) outcome \<Rightarrow> 'r grid_state" where
  "stateAfter s out = (case out of Inl _ \<Rightarrow> s | Inr (s', _) \<Rightarrow> s')"

section \<open>Concrete inputs\<close>

text \<open>
  A grid of one row that is still scrolled to where many rows used to be.
\<close>

definition staleScroll :: "nat viewport_rows" where
  "staleScroll = useViewportRows [0] 35 100 1000 [] None None"

text \<open>Sixty rows of height 35 in a viewport of 350 pixels, scrolled to 700.\<close>

definition sixtyRows :: "nat viewport_rows" where
  "sixtyRows = useViewportRows [0..<60] 35 350 700 [] None None"

text \<open>
  Scenario E of the specification: six rows in two regions, grouped by region. A row is
  its region and a number.
\<close>

definition regionGrouper :: "(string \<times> nat) row_grouper" where
  "regionGrouper rs k =
     (if k = ''region''
      then map (\<lambda>v. (v, filter (\<lambda>r. fst r = v) rs)) (remdups (map fst rs))
      else [])"

definition sixRows :: "(string \<times> nat) list" where
  "sixRows = [(''north'', 1), (''north'', 2), (''north'', 3),
              (''south'', 4), (''south'', 5), (''south'', 6)]"

text \<open>
  Props without callbacks, grouping or selection, and three columns of 100 pixels; the
  grids of the scenarios are renders of variations of these.
\<close>

definition plainProps :: "'r list \<Rightarrow> ('r, 'k) handler_props" where
  "plainProps rs =
     \<lparr> p_rawRows = rs, p_rowKeyGetter = None, p_onRowsChange = False, p_rowHeight = 35,
       p_clientHeight = 350, p_selectedRows = None, p_onSelectedRowsChange = False,
       p_rowGrouper = None, p_expandedGroupIds = None, p_onExpandedGroupIdsChange = False,
       p_onSelectedCellChange = False, p_onPaste = None, p_cellNavigationMode = NONE \<rparr>"

definition threeColumns :: "('r, unit) metrics" where
  "threeColumns =
     \<lparr> rawColumns = [plainColumn ''a'' (WidthNumber 100), plainColumn ''b'' (WidthNumber 100),
                     plainColumn ''c'' (WidthNumber 100)],
       columnWidths = Map.empty, viewportWidth = 300, minColumnWidth = 80,
       defaultSortable = False, defaultResizable = False, defaultFormatter = ValueFormatter,
       rawGroupBy = None \<rparr>"

text \<open>Scenario B: three columns, two rows, navigation mode \<open>CHANGE_ROW\<close>, cursor at (2, 0).\<close>

definition scenarioB :: "(nat, unit, nat) data_grid" where
  "scenarioB = renderDataGrid ((plainProps [0, 1])\<lparr> p_cellNavigationMode := CHANGE_ROW \<rparr>)
                 threeColumns 0"

definition cursorAt :: "int \<Rightarrow> int \<Rightarrow> 'r grid_state" where
  "cursorAt i r = initialState\<lparr> selectedPosition := \<lparr> idx = i, rowIdx = r, mode = SELECT \<rparr> \<rparr>"

definition keyPress :: "string \<Rightarrow> key_event" where
  "keyPress k = \<lparr> eventKey = k, keyCode = 0, ctrlKey = False, metaKey = False,
                  shiftKey = False, defaultPrevented = False, targetIsLoneEditorInput = False \<rparr>"

text \<open>
  Scenario D with grouping: the six rows grouped by region, the group \<open>north\<close> expanded.
  The columns are the group column \<open>region\<close> and an editable column \<open>x\<close>; a paste
  copies the number of the source row into the target row.
\<close>

definition editableColumn :: "string \<Rightarrow> (col_width, 'r, unit) column" where
  "editableColumn k = (plainColumn k (WidthNumber 100))\<lparr> editor := Some () \<rparr>"

definition regionColumns :: "(string \<times> nat, unit) metrics" where
  "regionColumns =
     \<lparr> rawColumns = [plainColumn ''region'' (WidthNumber 100), editableColumn ''x''],
       columnWidths = Map.empty, viewportWidth = 300, minColumnWidth = 80,
       defaultSortable = False, defaultResizable = False, defaultFormatter = ValueFormatter,
       rawGroupBy = Some [''region''] \<rparr>"

definition mergeNumber :: "(string \<times> nat) paste_event \<Rightarrow> string \<times> nat" where
  "mergeNumber e =
     (case (sourceRow e, targetRow e) of
        (Some (sr, sn), Some (tr, tn)) \<Rightarrow> (tr, sn)
      | (_, Some t) \<Rightarrow> t
      | _ \<Rightarrow> ('''', 0))"

definition pasteProps :: "(string \<times> nat, nat) handler_props" where
  "pasteProps = (plainProps sixRows)
     \<lparr> p_onRowsChange := True, p_onPaste := Some mergeNumber,
       p_rowGrouper := Some regionGrouper, p_expandedGroupIds := Some {''north''} \<rparr>"

definition groupedGrid :: "(string \<times> nat, unit, nat) data_grid" where
  "groupedGrid = renderDataGrid pasteProps regionColumns 0"

text \<open>
  The same props without grouping: the rows are the raw rows.
\<close>

definition ungroupedGrid :: "(string \<times> nat, unit, nat) data_grid" where
  "ungroupedGrid = renderDataGrid (pasteProps\<lparr> p_rowGrouper := None \<rparr>) regionColumns 0"

text \<open>
  The cell of column \<open>x\<close> in the row \<open>(north, 1)\<close> is copied and the cursor is on column
  \<open>x\<close> of the row \<open>(north, 2)\<close>: entry 2 of the flattened rows (after the header), raw
  row 1.
\<close>

definition pasteState :: "(string \<times> nat) grid_state" where
  "pasteState = (cursorAt 1 2)\<lparr> copiedCell := Some \<lparr> row = Some (''north'', 1), columnKey = ''x'' \<rparr> \<rparr>"

definition ctrlV :: key_event where
  "ctrlV = (keyPress ''v'')\<lparr> keyCode := 86, ctrlKey := True \<rparr>"

text \<open>
  An edit in progress on the ungrouped grid: the staged row differs from the original.
\<close>

definition editingState :: "(string \<times> nat) grid_state" where
  "editingState = initialState
     \<lparr> selectedPosition := \<lparr> idx = 1, rowIdx = 2,
                              mode = EDIT None (''north'', 30) (''north'', 3) \<rparr> \<rparr>"

text \<open>
  Scenario C: the editor is open on column \<open>x\<close> of the first row of the ungrouped grid.
  In \<open>replacedGrid\<close> the caller has replaced the rows by new objects; in \<open>shrunkGrid\<close>
  the caller has replaced the first row and has removed the column \<open>region\<close> as well.
\<close>

definition editingFirstRow :: "(string \<times> nat) grid_state" where
  "editingFirstRow = initialState
     \<lparr> selectedPosition := \<lparr> idx = 1, rowIdx = 0,
                              mode = EDIT None (''north'', 1) (''north'', 1) \<rparr> \<rparr>"

definition replacedGrid :: "(string \<times> nat, unit, nat) data_grid" where
  "replacedGrid =
     renderDataGrid (pasteProps\<lparr> p_rowGrouper := None,
                                p_rawRows := [(''north'', 100), (''north'', 2)] \<rparr>)
       regionColumns 0"

definition shrunkGrid :: "(string \<times> nat, unit, nat) data_grid" where
  "shrunkGrid =
     renderDataGrid (pasteProps\<lparr> p_rowGrouper := None,
                                p_rawRows := [(''north'', 100), (''north'', 2)] \<rparr>)
       (regionColumns\<lparr> rawColumns := [editableColumn ''x''] \<rparr>) 0"

text \<open>
  A grid whose caller listens to row selection but has supplied no key getter.
\<close>

definition selectableNoGetter :: "(nat, unit, nat) data_grid" where
  "selectableNoGetter =
     renderDataGrid ((plainProps [0, 1])\<lparr> p_onSelectedRowsChange := True,
                                          p_selectedRows := Some {} \<rparr>)
       threeColumns 0"

text \<open>The grouped grid with every group collapsed: two headers and no rows.\<close>

definition collapsedGrid :: "(string \<times> nat, unit, nat) data_grid" where
  "collapsedGrid = renderDataGrid (pasteProps\<lparr> p_expandedGroupIds := None \<rparr>) regionColumns 0"

text \<open>The grid of Scenario B in navigation mode \<open>LOOP_OVER_ROW\<close>.\<close>

definition loopGrid :: "(nat, unit, nat) data_grid" where
  "loopGrid = renderDataGrid ((plainProps [0, 1])\<lparr> p_cellNavigationMode := LOOP_OVER_ROW \<rparr>)
                threeColumns 0"

section \<open>Properties of the column metrics\<close>

lemma sizeColumns_fst: "fst (sizeColumns m cs st) = map (sizeColumn m) cs"
  by (induction cs arbitrary: st) (simp_all add: Let_def case_prod_beta)

lemma sizeColumns_unassigned:
  "unassignedColumnsCount (snd (sizeColumns m cs st)) =
     unassignedColumnsCount st + length (filter (\<lambda>c. column.width (sizeColumn m c) = None) cs)"
  by (induction cs arbitrary: st) (simp_all add: Let_def case_prod_beta split: option.splits)

lemma unassigned_count_positive:
  assumes "c \<in> set (fst (sizeColumns m cs pass1_init))" and "column.width c = None"
  shows "0 < unassignedColumnsCount (snd (sizeColumns m cs pass1_init))"
proof -
  from assms obtain c0 where "c0 \<in> set cs" "column.width (sizeColumn m c0) = None"
    by (auto simp: sizeColumns_fst)
  then have "filter (\<lambda>c. column.width (sizeColumn m c) = None) cs \<noteq> []"
    by (auto simp: filter_empty_conv)
  then show ?thesis by (simp add: sizeColumns_unassigned)
qed

lemma sizeColumns_lastFrozenIdx:
  "lastFrozenIdx (snd (sizeColumns m cs st)) =
     lastFrozenIdx st + int (length (filter (\<lambda>c. frozen (sizeColumn m c)) cs))"
  by (induction cs arbitrary: st) (simp_all add: Let_def case_prod_beta split: option.splits)

lemma calculateColumns_column:
  "map column (fst (calculateColumns m u cs i st)) = cs"
  by (induction cs arbitrary: i st)
     (simp_all add: Let_def calculateColumn_def case_prod_beta)

lemma calculateColumns_length:
  "length (fst (calculateColumns m u cs i st)) = length cs"
  by (induction cs arbitrary: i st) (simp_all add: Let_def case_prod_beta)

lemma calculateColumns_total:
  "totalWidth (snd (calculateColumns m u cs i st)) =
     totalWidth st + sum_list (map width (fst (calculateColumns m u cs i st)))"
  by (induction cs arbitrary: i st) (simp_all add: Let_def case_prod_beta)

lemma calculateColumns_left:
  "k < length cs \<Longrightarrow>
   left (fst (calculateColumns m u cs i st) ! k) =
     runningLeft st + sum_list (take k (map width (fst (calculateColumns m u cs i st))))"
proof (induction cs arbitrary: i st k)
  case Nil
  then show ?case by simp
next
  case (Cons c cs)
  show ?case
  proof (cases k)
    case 0
    then show ?thesis by (simp add: Let_def calculateColumn_def case_prod_beta)
  next
    case (Suc j)
    with Cons.prems have "j < length cs" by simp
    from Cons.IH [OF this] Suc show ?thesis
      by (simp add: Let_def case_prod_beta)
  qed
qed



lemma map_update_same: "(map f xs)[i := f (xs ! i)] = map f xs"
  by (metis list_update_id map_update)

lemma markLastFrozenColumn_fields:
  "map width (fst (markLastFrozenColumn cs i)) = map width cs"
  "map left (fst (markLastFrozenColumn cs i)) = map left cs"
  "map column (fst (markLastFrozenColumn cs i)) = map column cs"
  by (simp_all add: markLastFrozenColumn_def elemAt_def map_update map_update_same
        split: option.splits)

lemma getColumnMetrics_secondPass:
  "map width (columns (getColumnMetrics m)) = map width (fst (secondPass m))"
  "map left (columns (getColumnMetrics m)) = map left (fst (secondPass m))"
  "map column (columns (getColumnMetrics m)) = map column (fst (secondPass m))"
  "totalColumnWidth (getColumnMetrics m) = totalWidth (snd (secondPass m))"
  by (simp_all add: getColumnMetrics_def secondPass_def Let_def case_prod_beta
        markLastFrozenColumn_fields sizeColumns_fst)


lemma insertSorted_length: "length (insertSorted cmp x ys) = Suc (length ys)"
  by (induction ys) simp_all

lemma arraySort_length: "length (arraySort cmp xs) = length xs"
  by (induction xs) (simp_all add: arraySort_def insertSorted_length)

lemma getColumnMetrics_length:
  "length (columns (getColumnMetrics m)) = length (rawColumns m)"
  using arg_cong [OF getColumnMetrics_secondPass(3) [of m], of length]
  by (simp add: secondPass_def calculateColumns_length arraySort_length)

lemma lastFrozenColumnIndex_in_range:
  "-1 \<le> lastFrozenColumnIndex (getColumnMetrics m) \<and>
   lastFrozenColumnIndex (getColumnMetrics m) < int (length (columns (getColumnMetrics m)))"
proof -
  have "lastFrozenColumnIndex (getColumnMetrics m)
          = lastFrozenIdx (snd (sizeColumns m (rawColumns m) pass1_init))"
    by (simp add: getColumnMetrics_def Let_def case_prod_beta)
  also have "\<dots> = int (length (filter (\<lambda>c. frozen (sizeColumn m c)) (rawColumns m))) - 1"
    by (simp add: sizeColumns_lastFrozenIdx pass1_init_def)
  finally have e: "lastFrozenColumnIndex (getColumnMetrics m)
          = int (length (filter (\<lambda>c. frozen (sizeColumn m c)) (rawColumns m))) - 1" .
  have "length (filter (\<lambda>c. frozen (sizeColumn m c)) (rawColumns m)) \<le> length (rawColumns m)"
    by (rule length_filter_le)
  then show ?thesis unfolding e getColumnMetrics_length by linarith
qed

lemma secondPass_left:
  assumes "k < length (fst (secondPass m))"
  shows "left (fst (secondPass m) ! k) = sum_list (take k (map width (fst (secondPass m))))"
  using assms calculateColumns_left [of k _ m _ 0 pass2_init]
  by (simp add: secondPass_def calculateColumns_length pass2_init_def)

lemma secondPass_total:
  "totalWidth (snd (secondPass m)) = sum_list (map width (fst (secondPass m)))"
  using calculateColumns_total [of m _ _ 0 pass2_init]
  by (simp add: secondPass_def pass2_init_def)

lemma columns_left:
  assumes "k < length (columns (getColumnMetrics m))"
  shows "left (columns (getColumnMetrics m) ! k) =
           sum_list (take k (map width (columns (getColumnMetrics m))))"
proof -
  have len: "length (columns (getColumnMetrics m)) = length (fst (secondPass m))"
    using arg_cong [OF getColumnMetrics_secondPass(1) [of m], of length] by simp
  have "left (columns (getColumnMetrics m) ! k) = map left (columns (getColumnMetrics m)) ! k"
    using assms by simp
  also have "\<dots> = left (fst (secondPass m) ! k)"
    using assms len by (simp add: getColumnMetrics_secondPass(2))
  also have "\<dots> = sum_list (take k (map width (fst (secondPass m))))"
    using assms len by (simp add: secondPass_left)
  finally show ?thesis by (simp add: getColumnMetrics_secondPass(1))
qed

text \<open>
  Claim C1. For every column list, viewport width, resize-override map and group-by list,
  the widths of the calculated columns sum to \<open>totalColumnWidth\<close>, the first left offset
  is \<open>0\<close>, and every column ends where the next one starts:
  \<open>left[i] + width[i] = left[i+1]\<close>.
\<close>

theorem getColumnMetrics_widths_and_offsets:
  "sum_list (map width (columns (getColumnMetrics m))) = totalColumnWidth (getColumnMetrics m) \<and>
   (columns (getColumnMetrics m) \<noteq> [] \<longrightarrow> left (columns (getColumnMetrics m) ! 0) = 0) \<and>
   (\<forall>i. Suc i < length (columns (getColumnMetrics m)) \<longrightarrow>
        left (columns (getColumnMetrics m) ! i) + width (columns (getColumnMetrics m) ! i) =
        left (columns (getColumnMetrics m) ! Suc i))"
proof (intro conjI allI impI)
  show "sum_list (map width (columns (getColumnMetrics m))) = totalColumnWidth (getColumnMetrics m)"
    by (simp add: getColumnMetrics_secondPass secondPass_total)
next
  assume "columns (getColumnMetrics m) \<noteq> []"
  then show "left (columns (getColumnMetrics m) ! 0) = 0"
    using columns_left [of 0 m] by simp
next
  fix i
  assume i: "Suc i < length (columns (getColumnMetrics m))"
  have "take (Suc i) (map width (columns (getColumnMetrics m))) =
          take i (map width (columns (getColumnMetrics m))) @ [width (columns (getColumnMetrics m) ! i)]"
    using i by (simp add: take_Suc_conv_app_nth)
  then show "left (columns (getColumnMetrics m) ! i) + width (columns (getColumnMetrics m) ! i) =
        left (columns (getColumnMetrics m) ! Suc i)"
    using columns_left [of i m] columns_left [of "Suc i" m] i by simp
qed


text \<open>
  Scenario A of the specification: columns \<open>a\<close> (width 100) and \<open>b\<close> (no width) in a
  viewport of 300 pixels. Column \<open>b\<close> receives 200, the offsets are 0 and 100.
\<close>

lemma scenarioA_eval:
  "map (\<lambda>c. (key (column c), width c, left c)) (columns (getColumnMetrics scenarioA))
     = [(''a'', 100, 0), (''b'', 200, 100)] \<and> totalColumnWidth (getColumnMetrics scenarioA) = 300"
  by (simp add: scenarioA_def plainColumn_def getColumnMetrics_def sizeColumn_def
        getSpecifiedWidth_def clampColumnWidth_def arraySort_def compareColumns_def
        SELECT_COLUMN_KEY_def calculateColumn_def markLastFrozenColumn_def pass1_init_def
        pass2_init_def unallocatedColumnWidth_def Let_def)


theorem getColumnMetrics_widths_and_offsets_witness:
  "columns (getColumnMetrics scenarioA) \<noteq> [] \<and>
   Suc 0 < length (columns (getColumnMetrics scenarioA)) \<and>
   sum_list (map width (columns (getColumnMetrics scenarioA))) = 300 \<and>
   left (columns (getColumnMetrics scenarioA) ! 0) = 0 \<and>
   left (columns (getColumnMetrics scenarioA) ! 0) + width (columns (getColumnMetrics scenarioA) ! 0)
     = left (columns (getColumnMetrics scenarioA) ! Suc 0)"
proof -
  have len: "length (columns (getColumnMetrics scenarioA)) = 2"
    using arg_cong [OF conjunct1 [OF scenarioA_eval], of length] by simp
  then have ne: "columns (getColumnMetrics scenarioA) \<noteq> []" by auto
  have total: "totalColumnWidth (getColumnMetrics scenarioA) = 300"
    using scenarioA_eval by simp
  show ?thesis
    using getColumnMetrics_widths_and_offsets [of scenarioA] len ne total by simp
qed

subsection \<open>The order of the calculated columns\<close>

lemma insertSorted_between:
  assumes "\<forall>a\<in>set as. \<not> cmp x a \<le> 0" and "\<forall>b\<in>set bs. cmp x b \<le> 0"
  shows "insertSorted cmp x (as @ bs) = as @ x # bs"
  using assms by (induction as) (cases bs; simp)+

lemma buckets_append: "buckets r (is @ js) xs = buckets r is xs @ buckets r js xs"
  by (simp add: buckets_def)

lemma buckets_set: "set (buckets r is xs) = {x \<in> set xs. r x \<in> set is}"
  by (auto simp: buckets_def)

lemma buckets_Cons_other: "r x \<notin> set is \<Longrightarrow> buckets r is (x # xs) = buckets r is xs"
  unfolding buckets_def by (rule arg_cong [where f = concat]) auto

lemma arraySort_buckets:
  assumes cmp: "\<And>a b. cmp a b \<le> 0 \<longleftrightarrow> r a \<le> r b"
    and bound: "\<forall>x\<in>set xs. r x < n"
  shows "arraySort cmp xs = buckets r [0..<n] xs"
  using bound
proof (induction xs)
  case Nil
  then show ?case by (simp add: arraySort_def buckets_def)
next
  case (Cons x xs)
  define k where "k = r x"
  have kn: "k < n" using Cons.prems k_def by simp
  have split: "[0..<n] = [0..<k] @ k # [Suc k..<n]"
    using kn by (metis less_imp_add_positive upt_add_eq_append upt_conv_Cons
        less_eq_nat.simps(1) upt_rec)
  have IH: "arraySort cmp xs = buckets r [0..<k] xs @ buckets r (k # [Suc k..<n]) xs"
    using Cons by (simp add: split buckets_append)
  have "arraySort cmp (x # xs) = insertSorted cmp x (arraySort cmp xs)"
    by (simp add: arraySort_def)
  also have "\<dots> = buckets r [0..<k] xs @ x # buckets r (k # [Suc k..<n]) xs"
    unfolding IH
    by (rule insertSorted_between) (auto simp: buckets_set cmp k_def)
  also have "buckets r [0..<k] xs = buckets r [0..<k] (x # xs)"
    by (rule buckets_Cons_other [symmetric]) (simp add: k_def)
  also have "x # buckets r (k # [Suc k..<n]) xs = buckets r (k # [Suc k..<n]) (x # xs)"
  proof -
    have "buckets r [Suc k..<n] (x # xs) = buckets r [Suc k..<n] xs"
      by (rule buckets_Cons_other) (simp add: k_def)
    then show ?thesis
      using buckets_append [of r "[k]" "[Suc k..<n]"]
      by (simp add: buckets_def k_def)
  qed
  finally show ?case by (simp add: split buckets_append)
qed


lemma indexOf_mem: "x \<in> set xs \<Longrightarrow> 0 \<le> indexOf xs x \<and> indexOf xs x < int (length xs)"
  by (induction xs) (auto simp: Let_def)

lemma indexOf_not_mem: "x \<notin> set xs \<Longrightarrow> indexOf xs x = -1"
  by (induction xs) (auto simp: Let_def)

lemma inGroupBy_set: "inGroupBy gbo k \<longleftrightarrow> k \<in> set (groupByList gbo)"
  by (cases gbo) (simp_all add: inGroupBy_def groupByList_def arrayIncludes_def)

lemma compareColumns_rank:
  "compareColumns gbo a b \<le> 0 \<longleftrightarrow> columnRank gbo a \<le> columnRank gbo b"
proof -
  have cmp: "compareColumns gbo a b =
     (if key a = SELECT_COLUMN_KEY then -1
      else if key b = SELECT_COLUMN_KEY then 1
      else if inGroupBy gbo (key a) then
        (if inGroupBy gbo (key b)
         then indexOf (groupByList gbo) (key a) - indexOf (groupByList gbo) (key b) else -1)
      else if inGroupBy gbo (key b) then 1
      else if frozen a then (if frozen b then 0 else -1)
      else if frozen b then 1
      else 0)"
    by (simp add: compareColumns_def inGroupBy_def groupByList_def Let_def)
  show ?thesis
    unfolding cmp columnRank_def
    using indexOf_mem [of "key a" "groupByList gbo"] indexOf_mem [of "key b" "groupByList gbo"]
    by (auto simp: inGroupBy_set)
qed

lemma columnRank_bound: "columnRank gbo c < length (groupByList gbo) + 3"
  using indexOf_mem [of "key c" "groupByList gbo"]
  by (auto simp: columnRank_def inGroupBy_set)

lemma columnRank_group:
  "j < length (groupByList gbo) \<Longrightarrow>
   columnRank gbo c = Suc j \<longleftrightarrow>
     key c \<noteq> SELECT_COLUMN_KEY \<and> indexOf (groupByList gbo) (key c) = int j"
  using indexOf_mem [of "key c" "groupByList gbo"] indexOf_not_mem [of "key c" "groupByList gbo"]
  by (auto simp: columnRank_def inGroupBy_set)

lemma columnRank_frozen:
  "columnRank gbo c = Suc (length (groupByList gbo)) \<longleftrightarrow>
     key c \<noteq> SELECT_COLUMN_KEY \<and> \<not> inGroupBy gbo (key c) \<and> frozen c"
  using indexOf_mem [of "key c" "groupByList gbo"]
  by (auto simp: columnRank_def inGroupBy_set)

lemma columnRank_rest:
  "columnRank gbo c = Suc (Suc (length (groupByList gbo))) \<longleftrightarrow>
     key c \<noteq> SELECT_COLUMN_KEY \<and> \<not> inGroupBy gbo (key c) \<and> \<not> frozen c"
  using indexOf_mem [of "key c" "groupByList gbo"]
  by (auto simp: columnRank_def inGroupBy_set)

lemma columnRank_select: "columnRank gbo c = 0 \<longleftrightarrow> key c = SELECT_COLUMN_KEY"
  by (simp add: columnRank_def)

lemma upt_rank_split: "[0..<n + 3] = [0] @ map Suc [0..<n] @ [Suc n, Suc (Suc n)]"
proof -
  have "[0..<n + 3] = [0..<Suc n] @ [Suc n, Suc (Suc n)]"
    by (simp add: numeral_3_eq_3)
  also have "[0..<Suc n] = 0 # map Suc [0..<n]"
    by (simp add: upt_conv_Cons map_Suc_upt del: upt_Suc)
  finally show ?thesis by simp
qed

lemma arraySort_compareColumns:
  "arraySort (compareColumns gbo) cs = specColumnOrder gbo cs"
proof -
  let ?n = "length (groupByList gbo)"
  have "arraySort (compareColumns gbo) cs = buckets (columnRank gbo) [0..<?n + 3] cs"
    by (rule arraySort_buckets) (simp_all add: compareColumns_rank columnRank_bound)
  also have "\<dots> = buckets (columnRank gbo) [0] cs
       @ buckets (columnRank gbo) (map Suc [0..<?n]) cs
       @ buckets (columnRank gbo) [Suc ?n] cs @ buckets (columnRank gbo) [Suc (Suc ?n)] cs"
    unfolding upt_rank_split by (simp add: buckets_def)
  also have "buckets (columnRank gbo) [0] cs = filter (\<lambda>c. key c = SELECT_COLUMN_KEY) cs"
    unfolding buckets_def by (simp add: columnRank_select)
  also have "buckets (columnRank gbo) (map Suc [0..<?n]) cs =
      concat (map (\<lambda>j. filter (\<lambda>c. key c \<noteq> SELECT_COLUMN_KEY \<and>
                                     indexOf (groupByList gbo) (key c) = int j) cs) [0..<?n])"
    unfolding buckets_def map_map comp_def
    by (rule arg_cong [where f = concat], rule map_cong) (simp_all add: columnRank_group)
  also have "buckets (columnRank gbo) [Suc ?n] cs =
      filter (\<lambda>c. key c \<noteq> SELECT_COLUMN_KEY \<and> \<not> inGroupBy gbo (key c) \<and> frozen c) cs"
    unfolding buckets_def by (simp add: columnRank_frozen)
  also have "buckets (columnRank gbo) [Suc (Suc ?n)] cs =
      filter (\<lambda>c. key c \<noteq> SELECT_COLUMN_KEY \<and> \<not> inGroupBy gbo (key c) \<and> \<not> frozen c) cs"
    unfolding buckets_def by (simp add: columnRank_rest)
  finally show ?thesis by (simp add: specColumnOrder_def)
qed


lemma sizeColumn_key: "key (sizeColumn m c) = key c"
  by (simp add: sizeColumn_def Let_def)

lemma sizeColumn_frozen:
  "\<not> inGroupBy (rawGroupBy m) (key c) \<Longrightarrow> frozen (sizeColumn m c) = frozen c"
  by (simp add: sizeColumn_def Let_def inGroupBy_def)

lemma specColumnOrder_map:
  assumes "\<And>c. key (f c) = key c"
    and "\<And>c. \<not> inGroupBy gbo (key c) \<Longrightarrow> frozen (f c) = frozen c"
  shows "specColumnOrder gbo (map f cs) = map f (specColumnOrder gbo cs)"
proof -
  have 1: "filter (\<lambda>c. key c \<noteq> SELECT_COLUMN_KEY \<and> \<not> inGroupBy gbo (key c) \<and> frozen c) (map f cs)
      = map f (filter (\<lambda>c. key c \<noteq> SELECT_COLUMN_KEY \<and> \<not> inGroupBy gbo (key c) \<and> frozen c) cs)"
    unfolding filter_map comp_def using assms by metis
  have 2: "filter (\<lambda>c. key c \<noteq> SELECT_COLUMN_KEY \<and> \<not> inGroupBy gbo (key c) \<and> \<not> frozen c) (map f cs)
      = map f (filter (\<lambda>c. key c \<noteq> SELECT_COLUMN_KEY \<and> \<not> inGroupBy gbo (key c) \<and> \<not> frozen c) cs)"
    unfolding filter_map comp_def using assms by metis
  show ?thesis
    unfolding specColumnOrder_def map_append 1 2
    by (simp add: filter_map comp_def assms(1) map_concat)
qed

text \<open>
  Claim C6. The calculated columns are, in this order: the reserved select column; then,
  for each position of the group-by list in turn, the columns whose key first occurs at
  that position; then the remaining frozen columns; then all other columns. Within each
  part the columns keep the order they were declared in. (The calculated columns are
  compared through the sized column they spread, \<open>column\<close>.)
\<close>

theorem getColumnMetrics_sort_order:
  "map column (columns (getColumnMetrics m)) =
     map (sizeColumn m) (specColumnOrder (rawGroupBy m) (rawColumns m))"
proof -
  have "map column (columns (getColumnMetrics m)) =
          arraySort (compareColumns (rawGroupBy m)) (map (sizeColumn m) (rawColumns m))"
    by (simp add: getColumnMetrics_secondPass secondPass_def calculateColumns_column)
  also have "\<dots> = specColumnOrder (rawGroupBy m) (map (sizeColumn m) (rawColumns m))"
    by (rule arraySort_compareColumns)
  also have "\<dots> = map (sizeColumn m) (specColumnOrder (rawGroupBy m) (rawColumns m))"
    by (rule specColumnOrder_map) (simp_all add: sizeColumn_key sizeColumn_frozen)
  finally show ?thesis .
qed

theorem getColumnMetrics_sort_order_witness:
  "map (\<lambda>c. key (column c)) (columns (getColumnMetrics orderExample)) =
     [''select-row'', ''a'', ''b'', ''c'', ''d'', ''e'']"
proof -
  have "map (\<lambda>c. key (column c)) (columns (getColumnMetrics orderExample)) =
          map key (map column (columns (getColumnMetrics orderExample)))"
    by simp
  also have "\<dots> = map key (specColumnOrder (rawGroupBy orderExample) (rawColumns orderExample))"
    unfolding getColumnMetrics_sort_order [of orderExample] by (simp add: sizeColumn_key)
  also have "\<dots> = [''select-row'', ''a'', ''b'', ''c'', ''d'', ''e'']"
    by (simp add: orderExample_def specColumnOrder_def plainColumn_def SELECT_COLUMN_KEY_def
          groupByList_def inGroupBy_def arrayIncludes_def upt_rec [of 0] upt_rec [of 1])
  finally show ?thesis .
qed

section \<open>Properties of the rows\<close>

subsection \<open>Flattening\<close>

lemma expand_spec:
  "flattenedRows (expandGroup ex g parent lvl st) = flattenedRows st @ specFlatten ex g parent lvl"
  "flattenedRows (expandEntries ex es pos n parent lvl st)
     = flattenedRows st @ specFlattenGroups ex es pos n parent lvl"
  by (induction ex g parent lvl st and ex es pos n parent lvl st
      rule: expandGroup_expandEntries.induct)
     (simp_all add: Let_def)

lemma groupRowsOf_append: "groupRowsOf (xs @ ys) = groupRowsOf xs @ groupRowsOf ys"
  by (induction xs rule: groupRowsOf.induct) simp_all

lemma groupRowsOf_rows: "groupRowsOf (map Row rs) = []"
  by (induction rs) simp_all

text \<open>The set \<^verbatim>\<open>allGroupRows\<close> holds exactly the group rows of the flattened sequence.\<close>

lemma expandGroup_allGroupRows:
  "allGroupRows (expandGroup ex g parent lvl st)
     = allGroupRows st @ groupRowsOf (specFlatten ex g parent lvl)"
  "allGroupRows (expandEntries ex es pos n parent lvl st)
     = allGroupRows st @ groupRowsOf (specFlattenGroups ex es pos n parent lvl)"
  by (induction ex g parent lvl st and ex es pos n parent lvl st
      rule: expandGroup_expandEntries.induct)
     (simp_all add: Let_def groupRowsOf_append groupRowsOf_rows)

lemma rows_grouped:
  "rows (useViewportRows rawRs rh ch stp (k # ks) (Some g) ex)
     = specFlatten ex (Groups (fst (groupRows g rawRs k ks 0))) None 0"
  by (simp add: useViewportRows_def groupedRows_def flattenRows_def Let_def case_prod_beta
        expand_spec del: groupRows.simps specFlatten.simps expandGroup.simps)

lemma rows_ungrouped:
  "gb = [] \<or> grouper = None \<Longrightarrow>
   rows (useViewportRows rawRs rh ch stp gb grouper ex) = map Row rawRs"
  by (auto simp: useViewportRows_def groupedRows_def flattenRows_def Let_def
        split: list.splits option.splits)

lemma one_level_length:
  "length (specFlattenGroups ex (fst (groupEntries g es [] s c)) pos n None lvl)
     = length es + sum_list (map (\<lambda>(k, rs). if isExpandedId ex k then length rs else 0) es)"
  by (induction es arbitrary: c pos)
     (auto simp: Let_def case_prod_beta groupId_def)

lemma one_level_rows_length:
  "length (rows (useViewportRows rawRs rh ch stp [k] (Some g) ex))
     = length (g rawRs k)
       + sum_list (map (\<lambda>(k, rs). if isExpandedId ex k then length rs else 0) (g rawRs k))"
  unfolding rows_grouped by (simp add: one_level_length)


lemma regionGrouper_sixRows:
  "regionGrouper sixRows ''region''
     = [(''north'', [(''north'', 1), (''north'', 2), (''north'', 3)]),
        (''south'', [(''south'', 4), (''south'', 5), (''south'', 6)])]"
  by (simp add: regionGrouper_def sixRows_def)


subsection \<open>The row window\<close>

lemma floor_batch:
  "\<lfloor>real_of_int x / real_of_int RENDER_BACTCH_SIZE\<rfloor> * RENDER_BACTCH_SIZE = x div 8 * 8"
  using floor_divide_of_int_eq [of x 8, where ?'a = real] by (simp add: RENDER_BACTCH_SIZE_def)

lemma ceiling_batch:
  "\<lceil>real_of_int x / real_of_int RENDER_BACTCH_SIZE\<rceil> * RENDER_BACTCH_SIZE
     = - ((- x) div 8) * 8"
  using ceiling_divide_eq_div [of x 8, where ?'a = real] by (simp add: RENDER_BACTCH_SIZE_def)

lemma overscan_start_eq:
  "rowOverscanStartIdx (useViewportRows rawRs rh ch stp gb grouper ex)
     = max 0 ((rowVisibleStartIdx stp rh - 4) div 8 * 8)"
  by (simp only: useViewportRows_def Let_def case_prod_beta floor_batch overscanThreshold_def
        viewport_rows.simps)

lemma overscan_end_eq:
  "rowOverscanEndIdx (useViewportRows rawRs rh ch stp gb grouper ex)
     = min (int (length (rows (useViewportRows rawRs rh ch stp gb grouper ex))) - 1)
           (- ((- (rowVisibleEndIdx (length (rows (useViewportRows rawRs rh ch stp gb grouper ex)))
                     stp ch rh + 4)) div 8) * 8)"
  by (simp only: useViewportRows_def Let_def case_prod_beta ceiling_batch overscanThreshold_def
        viewport_rows.simps)

lemma visible_start_nonneg: "0 \<le> stp \<Longrightarrow> 0 < rh \<Longrightarrow> 0 \<le> rowVisibleStartIdx stp rh"
  by (simp add: rowVisibleStartIdx_def)

lemma visible_start_le:
  "0 \<le> ch \<Longrightarrow> 0 < rh \<Longrightarrow>
   rowVisibleStartIdx stp rh \<le> \<lfloor>(stp + ch) / rh\<rfloor>"
  unfolding rowVisibleStartIdx_def
  by (intro floor_mono divide_right_mono) simp_all

lemma staleScroll_eval:
  "rows staleScroll = [Row 0] \<and> rowOverscanStartIdx staleScroll = 24"
proof
  show "rows staleScroll = [Row 0]"
    by (simp add: staleScroll_def useViewportRows_def groupedRows_def flattenRows_def)
  show "rowOverscanStartIdx staleScroll = 24"
    by (simp add: staleScroll_def overscan_start_eq rowVisibleStartIdx_def)
qed

text \<open>
  Claim C2, as stated: for every non-negative scroll top and client height, positive row
  height and flattened row list, the overscan window contains the visible range and both
  overscan indices lie within \<open>[0, len - 1]\<close>. The second half fails when the scroll top
  lies past the last row: with one row of height 35 and a scroll top of 1000 the overscan
  start is 24, beyond the last index 0.
\<close>

theorem row_overscan_window_counterexample:
  "(0::real) \<le> 1000 \<and> (0::real) \<le> 100 \<and> (0::real) < 35 \<and>
   \<not> (0 \<le> rowOverscanStartIdx staleScroll
      \<and> rowOverscanStartIdx staleScroll \<le> int (length (rows staleScroll)) - 1)"
  using staleScroll_eval by simp

text \<open>
  Claim C2, amended. For every non-negative scroll top and client height, positive row
  height and flattened row list: the overscan start lies in \<open>[0, visibleStart]\<close>, the
  overscan end lies in \<open>[visibleEnd, len - 1]\<close>, hence the overscan window contains the
  visible range \<open>[visibleStart, visibleEnd]\<close>; and when the first visible row exists
  (\<open>visibleStart \<le> len - 1\<close>) both overscan indices lie within \<open>[0, len - 1]\<close>.
\<close>

theorem row_overscan_window:
  assumes "0 \<le> stp" and "0 \<le> ch" and "0 < rh"
  shows "0 \<le> rowOverscanStartIdx (useViewportRows rawRs rh ch stp gb grouper ex) \<and>
         rowOverscanStartIdx (useViewportRows rawRs rh ch stp gb grouper ex)
           \<le> rowVisibleStartIdx stp rh \<and>
         rowVisibleEndIdx (length (rows (useViewportRows rawRs rh ch stp gb grouper ex))) stp ch rh
           \<le> rowOverscanEndIdx (useViewportRows rawRs rh ch stp gb grouper ex) \<and>
         rowOverscanEndIdx (useViewportRows rawRs rh ch stp gb grouper ex)
           \<le> int (length (rows (useViewportRows rawRs rh ch stp gb grouper ex))) - 1 \<and>
         {rowVisibleStartIdx stp rh ..
            rowVisibleEndIdx (length (rows (useViewportRows rawRs rh ch stp gb grouper ex))) stp ch rh}
           \<subseteq> {rowOverscanStartIdx (useViewportRows rawRs rh ch stp gb grouper ex) ..
               rowOverscanEndIdx (useViewportRows rawRs rh ch stp gb grouper ex)} \<and>
         (rowVisibleStartIdx stp rh
            \<le> int (length (rows (useViewportRows rawRs rh ch stp gb grouper ex))) - 1 \<longrightarrow>
          rowOverscanStartIdx (useViewportRows rawRs rh ch stp gb grouper ex)
            \<le> int (length (rows (useViewportRows rawRs rh ch stp gb grouper ex))) - 1 \<and>
          0 \<le> rowOverscanEndIdx (useViewportRows rawRs rh ch stp gb grouper ex))"
proof -
  define vr where "vr = useViewportRows rawRs rh ch stp gb grouper ex"
  define len where "len = int (length (rows vr))"
  define vs where "vs = rowVisibleStartIdx stp rh"
  define ve where "ve = rowVisibleEndIdx (length (rows vr)) stp ch rh"
  have os: "rowOverscanStartIdx vr = max 0 ((vs - 4) div 8 * 8)"
    unfolding vr_def vs_def by (rule overscan_start_eq)
  have oe: "rowOverscanEndIdx vr = min (len - 1) (- ((- (ve + 4)) div 8) * 8)"
    unfolding vr_def ve_def len_def by (rule overscan_end_eq)
  have vs0: "0 \<le> vs" unfolding vs_def using assms(1,3) by (rule visible_start_nonneg)
  have ve_def': "ve = min (len - 1) \<lfloor>(stp + ch) / rh\<rfloor>"
    unfolding ve_def len_def rowVisibleEndIdx_def ..
  have vs_fl: "vs \<le> \<lfloor>(stp + ch) / rh\<rfloor>"
    unfolding vs_def using assms(2,3) by (rule visible_start_le)
  have 1: "0 \<le> rowOverscanStartIdx vr" unfolding os by simp
  have 2: "rowOverscanStartIdx vr \<le> vs" unfolding os using vs0 by simp
  have 3: "ve \<le> rowOverscanEndIdx vr"
  proof -
    have "ve \<le> - ((- (ve + 4)) div 8) * 8" by linarith
    moreover have "ve \<le> len - 1" unfolding ve_def' by simp
    ultimately show ?thesis unfolding oe by simp
  qed
  have 4: "rowOverscanEndIdx vr \<le> len - 1" unfolding oe by simp
  have 5: "{vs .. ve} \<subseteq> {rowOverscanStartIdx vr .. rowOverscanEndIdx vr}"
    using 2 3 by auto
  have 6: "vs \<le> len - 1 \<longrightarrow> rowOverscanStartIdx vr \<le> len - 1 \<and> 0 \<le> rowOverscanEndIdx vr"
  proof
    assume h: "vs \<le> len - 1"
    have "0 \<le> \<lfloor>(stp + ch) / rh\<rfloor>" using vs0 vs_fl by linarith
    then have "0 \<le> ve" unfolding ve_def' using h vs0 by linarith
    with 2 3 h show "rowOverscanStartIdx vr \<le> len - 1 \<and> 0 \<le> rowOverscanEndIdx vr" by linarith
  qed
  show ?thesis using 1 2 3 4 5 6 unfolding vr_def len_def vs_def ve_def by blast
qed

text \<open>
  The amended claim at sixty rows of height 35 in a viewport of 350 pixels, scrolled to
  700: the first visible row is row 20, and it exists.
\<close>

theorem row_overscan_window_witness:
  "(0::real) \<le> 700 \<and> (0::real) \<le> 350 \<and> (0::real) < 35 \<and>
   rowVisibleStartIdx 700 35 \<le> int (length (rows sixtyRows)) - 1 \<and>
   0 \<le> rowOverscanStartIdx sixtyRows \<and>
   rowOverscanStartIdx sixtyRows \<le> rowVisibleStartIdx 700 35 \<and>
   rowVisibleEndIdx (length (rows sixtyRows)) 700 350 35 \<le> rowOverscanEndIdx sixtyRows \<and>
   rowOverscanStartIdx sixtyRows \<le> int (length (rows sixtyRows)) - 1 \<and>
   0 \<le> rowOverscanEndIdx sixtyRows \<and>
   rowOverscanEndIdx sixtyRows \<le> int (length (rows sixtyRows)) - 1"
proof -
  have len: "length (rows sixtyRows) = 60"
    by (simp add: sixtyRows_def rows_ungrouped)
  have vs: "rowVisibleStartIdx 700 35 = 20"
    by (simp add: rowVisibleStartIdx_def)
  have h: "(0::real) \<le> 700" "(0::real) \<le> 350" "(0::real) < 35" by simp_all
  from row_overscan_window [OF h, of "[0..<60]" "[]" None None] len vs
  show ?thesis unfolding sixtyRows_def by simp
qed

section \<open>Properties of the grid\<close>

subsection \<open>The shape of a render\<close>


lemma renderDataGrid_columns_length:
  "length (gridColumns (renderDataGrid p m stp)) = length (rawColumns m)"
  by (simp add: gridColumns_def renderDataGrid_def Let_def getColumnMetrics_length)

lemma renderDataGrid_rows_ungrouped:
  "p_rowGrouper p = None \<Longrightarrow> gridRows (renderDataGrid p m stp) = map Row (p_rawRows p)"
  by (simp add: gridRows_def renderDataGrid_def Let_def rows_ungrouped)

lemma renderDataGrid_hasGroups_no_grouper:
  "p_rowGrouper p = None \<Longrightarrow> \<not> hasGroups (renderDataGrid p m stp)"
  by (simp add: hasGroups_def renderDataGrid_def Let_def)

lemma isCellEditable_row:
  "isCellEditable g p = Inr True \<Longrightarrow> \<exists>r. elemAt (gridRows g) (rowIdx p) = Some (Row r)"
  by (auto simp: isCellEditable_def isSelectedCellEditable_def isCellWithinBounds_def
        elemAt_def isGroupRow_def Let_def
        split: if_splits option.splits flat_row.splits)

lemma selectCell_out_of_bounds:
  "\<not> isCellWithinBounds g p \<Longrightarrow> selectCell g s p enableEditor = Inr (s, [])"
  by (simp add: selectCell_def)

lemma selectCell_select:
  "isCellWithinBounds g p \<Longrightarrow>
   selectCell g s p False =
     Inr (s\<lparr> selectedPosition := \<lparr> idx = idx p, rowIdx = rowIdx p, mode = SELECT \<rparr> \<rparr>,
          commitEditorChanges g s
          @ (if onSelectedCellChange g then [SelectedCellChange p] else []))"
  by (simp add: selectCell_def Let_def)

lemma getNextPosition_ArrowRight:
  "getNextPosition g s ''ArrowRight'' ctrl shift
     = \<lparr> idx = idx (selectedPosition s) + 1, rowIdx = rowIdx (selectedPosition s) \<rparr>"
  by (simp add: getNextPosition_def keyPosition_def Let_def
        split: option.splits flat_row.splits)

lemma navigate_ArrowRight:
  assumes "mode (selectedPosition s) = SELECT" and "eventKey e = ''ArrowRight''"
  shows "stateAfter s (navigate g s e)
         = stateAfter s (selectCell g s
             (getNextSelectedCellPosition (cellNavigationMode g) (gridColumns g)
                (int (length (gridRows g)))
                \<lparr> idx = idx (selectedPosition s) + 1, rowIdx = rowIdx (selectedPosition s) \<rparr>)
             False)"
  using assms
  by (simp add: navigate_def Let_def getNextPosition_ArrowRight stateAfter_def
        split: sum.splits prod.splits)

lemma navigate_ArrowRight_wrap:
  assumes "mode (selectedPosition s) = SELECT" and "eventKey e = ''ArrowRight''"
    and "isCellWithinBounds g (selectedPosition s)"
    and "0 \<le> idx (selectedPosition s)"
    and "idx (selectedPosition s) = int (length (gridColumns g)) - 1"
  shows "cellNavigationMode g = LOOP_OVER_ROW \<Longrightarrow>
         selectedPosition (stateAfter s (navigate g s e))
           = \<lparr> idx = 0, rowIdx = rowIdx (selectedPosition s), mode = SELECT \<rparr>"
    and "cellNavigationMode g = CHANGE_ROW \<Longrightarrow>
         rowIdx (selectedPosition s) \<noteq> int (length (gridRows g)) - 1 \<Longrightarrow>
         selectedPosition (stateAfter s (navigate g s e))
           = \<lparr> idx = 0, rowIdx = rowIdx (selectedPosition s) + 1, mode = SELECT \<rparr>"
proof -
  assume loop: "cellNavigationMode g = LOOP_OVER_ROW"
  have t: "getNextSelectedCellPosition LOOP_OVER_ROW (gridColumns g) (int (length (gridRows g)))
             \<lparr> idx = idx (selectedPosition s) + 1, rowIdx = rowIdx (selectedPosition s) \<rparr>
           = \<lparr> idx = 0, rowIdx = rowIdx (selectedPosition s) \<rparr>"
    using assms(5) by (simp add: getNextSelectedCellPosition_def Let_def)
  have b: "isCellWithinBounds g \<lparr> idx = 0, rowIdx = rowIdx (selectedPosition s) \<rparr>"
    using assms(3,4,5) by (simp add: isCellWithinBounds_def minColIdx_def)
  show "selectedPosition (stateAfter s (navigate g s e))
           = \<lparr> idx = 0, rowIdx = rowIdx (selectedPosition s), mode = SELECT \<rparr>"
    unfolding navigate_ArrowRight [OF assms(1,2)] loop t
    by (simp add: selectCell_select [OF b] stateAfter_def)
next
  assume change: "cellNavigationMode g = CHANGE_ROW"
    and notLast: "rowIdx (selectedPosition s) \<noteq> int (length (gridRows g)) - 1"
  have t: "getNextSelectedCellPosition CHANGE_ROW (gridColumns g) (int (length (gridRows g)))
             \<lparr> idx = idx (selectedPosition s) + 1, rowIdx = rowIdx (selectedPosition s) \<rparr>
           = \<lparr> idx = 0, rowIdx = rowIdx (selectedPosition s) + 1 \<rparr>"
    using assms(5) notLast by (simp add: getNextSelectedCellPosition_def Let_def)
  have b: "isCellWithinBounds g \<lparr> idx = 0, rowIdx = rowIdx (selectedPosition s) + 1 \<rparr>"
    using assms(3,4,5) notLast by (simp add: isCellWithinBounds_def minColIdx_def)
  show "selectedPosition (stateAfter s (navigate g s e))
           = \<lparr> idx = 0, rowIdx = rowIdx (selectedPosition s) + 1, mode = SELECT \<rparr>"
    unfolding navigate_ArrowRight [OF assms(1,2)] change t
    by (simp add: selectCell_select [OF b] stateAfter_def)
qed


subsection \<open>Raw row indices, the editor and the render checks\<close>


lemma assignAt_in_range:
  "0 \<le> i \<Longrightarrow> i < int (length xs) \<Longrightarrow> assignAt xs i v = map Some (xs[nat i := v])"
  by (simp add: assignAt_def map_update)

lemma indexOf_nth: "x \<in> set xs \<Longrightarrow> xs ! nat (indexOf xs x) = x"
proof (induction xs)
  case Nil
  then show ?case by simp
next
  case (Cons y ys)
  show ?case
  proof (cases "y = x")
    case True
    then show ?thesis by simp
  next
    case False
    with Cons.prems have mem: "x \<in> set ys" by simp
    from indexOf_mem [OF mem] have "0 \<le> indexOf ys x" by simp
    then have "nat (indexOf ys x + 1) = Suc (nat (indexOf ys x))" by simp
    with False mem Cons.IH indexOf_mem [OF mem] show ?thesis
      by (auto simp: Let_def)
  qed
qed

lemma getRawRowIdx_ungrouped: "\<not> hasGroups g \<Longrightarrow> getRawRowIdx g i = i"
  by (simp add: getRawRowIdx_def)

lemma getRawRowIdx_grouped:
  assumes "hasGroups g" and "elemAt (gridRows g) i = Some (Row x)" and "x \<in> set (rawRows g)"
  shows "0 \<le> getRawRowIdx g i \<and> getRawRowIdx g i < int (length (rawRows g))
         \<and> rawRows g ! nat (getRawRowIdx g i) = x"
  using assms indexOf_mem [of x "rawRows g"] indexOf_nth [of x "rawRows g"]
  by (simp add: getRawRowIdx_def)

lemma closeEditor_edit:
  "mode (selectedPosition s) = EDIT k r orig \<Longrightarrow>
   selectedPosition (closeEditor s pending)
     = \<lparr> idx = idx (selectedPosition pending), rowIdx = rowIdx (selectedPosition pending),
         mode = SELECT \<rparr>"
  by (simp add: closeEditor_def)

lemma renderChecks_stale:
  assumes "mode (selectedPosition s) = EDIT k r orig"
    and "elemAt (gridRows g) (rowIdx (selectedPosition s)) \<noteq> Some (Row orig)"
  shows "mode (selectedPosition (fst (renderChecks g s))) = SELECT
         \<and> snd (renderChecks g s) = []
         \<and> (idx (selectedPosition s) < int (length (gridColumns g))
              \<and> rowIdx (selectedPosition s) < int (length (gridRows g)) \<longrightarrow>
            idx (selectedPosition (fst (renderChecks g s))) = idx (selectedPosition s)
            \<and> rowIdx (selectedPosition (fst (renderChecks g s))) = rowIdx (selectedPosition s))
         \<and> (\<not> (idx (selectedPosition s) < int (length (gridColumns g))
                 \<and> rowIdx (selectedPosition s) < int (length (gridRows g))) \<longrightarrow>
            selectedPosition (fst (renderChecks g s)) = unselected)"
proof -
  have stale: "isStaleEdit g s" using assms by (simp add: isStaleEdit_def)
  then have rc: "fst (renderChecks g s) = closeEditor s (resetOutOfBounds g s)"
    "snd (renderChecks g s) = []"
    by (simp_all add: renderChecks_def Let_def)
  have sp: "selectedPosition (fst (renderChecks g s))
     = \<lparr> idx = idx (selectedPosition (resetOutOfBounds g s)),
         rowIdx = rowIdx (selectedPosition (resetOutOfBounds g s)), mode = SELECT \<rparr>"
    unfolding rc using assms(1) by (rule closeEditor_edit)
  show ?thesis
    by (auto simp: sp rc(2) resetOutOfBounds_def unselected_def)
qed



subsection \<open>The invariant of the selected position\<close>


lemma isCellWithinBounds_cong:
  "idx p = idx q \<Longrightarrow> rowIdx p = rowIdx q \<Longrightarrow> isCellWithinBounds g p = isCellWithinBounds g q"
  by (simp add: isCellWithinBounds_def)

lemma positionInvariant_same_position:
  assumes "positionInvariant g s"
    and "idx (selectedPosition s') = idx (selectedPosition s)"
    and "rowIdx (selectedPosition s') = rowIdx (selectedPosition s)"
    and "mode (selectedPosition s') = SELECT \<or> isCellWithinBounds g (selectedPosition s)"
  shows "positionInvariant g s'"
proof (cases "isCellWithinBounds g (selectedPosition s)")
  case True
  then have "isCellWithinBounds g (selectedPosition s')"
    using isCellWithinBounds_cong [OF assms(2,3), of g] by simp
  then show ?thesis by (simp add: positionInvariant_def)
next
  case False
  with assms(1,4) have u: "selectedPosition s = unselected" "mode (selectedPosition s') = SELECT"
    by (simp_all add: positionInvariant_def)
  have "selectedPosition s' = unselected"
    using assms(2,3) u by (cases "selectedPosition s'") (simp add: unselected_def)
  then show ?thesis by (simp add: positionInvariant_def)
qed

lemma positionInvariant_initial: "positionInvariant g initialState"
  by (simp add: positionInvariant_def initialState_def)

lemma positionInvariant_closeEditor:
  assumes "positionInvariant g pending"
    and "idx (selectedPosition pending) = idx (selectedPosition s) \<and>
         rowIdx (selectedPosition pending) = rowIdx (selectedPosition s) \<and>
         mode (selectedPosition pending) = mode (selectedPosition s)"
  shows "positionInvariant g (closeEditor s pending)"
proof (cases "mode (selectedPosition s)")
  case SELECT
  then show ?thesis using assms(1) by (simp add: closeEditor_def)
next
  case (EDIT k r orig)
  show ?thesis
    by (rule positionInvariant_same_position [OF assms(1)])
       (simp_all add: closeEditor_edit [OF EDIT])
qed

lemma positionInvariant_selectCell:
  assumes "positionInvariant g s"
  shows "positionInvariant g (stateAfter s (selectCell g s p e))"
proof (cases "isCellWithinBounds g p")
  case False
  then show ?thesis using assms by (simp add: selectCell_def stateAfter_def)
next
  case True
  have b: "isCellWithinBounds g \<lparr> idx = idx p, rowIdx = rowIdx p, mode = m \<rparr>" for m :: "'a cell_mode"
    using True by (simp add: isCellWithinBounds_def)
  show ?thesis
    using True assms b
    by (auto simp: selectCell_def stateAfter_def Let_def positionInvariant_def
          split: sum.splits bool.splits option.splits flat_row.splits if_splits)
qed

lemma positionInvariant_handleCellInput:
  assumes "positionInvariant g s"
  shows "positionInvariant g (stateAfter s (handleCellInput g s ev))"
proof (cases "isCellWithinBounds g (selectedPosition s)")
  case False
  then show ?thesis using assms by (simp add: handleCellInput_def stateAfter_def Let_def)
next
  case True
  have b: "isCellWithinBounds g \<lparr> idx = idx (selectedPosition s),
             rowIdx = rowIdx (selectedPosition s), mode = m \<rparr>" for m :: "'a cell_mode"
    using True by (simp add: isCellWithinBounds_def)
  have c: "positionInvariant g (closeEditor s s)"
    using assms by (rule positionInvariant_closeEditor) simp
  show ?thesis
    using True assms b c
    by (auto simp: handleCellInput_def stateAfter_def Let_def positionInvariant_def
          split: sum.splits option.splits flat_row.splits if_splits cell_mode.splits)
qed

lemma positionInvariant_handleRowChange:
  assumes "positionInvariant g s"
  shows "positionInvariant g (fst (handleRowChange g s r c))"
proof (cases "mode (selectedPosition s)")
  case SELECT
  then show ?thesis using assms by (simp add: handleRowChange_def)
next
  case (EDIT k staged orig)
  then have "selectedPosition s \<noteq> unselected" by (auto simp: unselected_def)
  with assms have w: "isCellWithinBounds g (selectedPosition s)"
    by (simp add: positionInvariant_def)
  have c: "positionInvariant g (closeEditor s s)"
    using assms by (rule positionInvariant_closeEditor) simp
  have "isCellWithinBounds g ((selectedPosition s)\<lparr> mode := EDIT k r orig \<rparr>)"
    using w by (simp add: isCellWithinBounds_def)
  then show ?thesis using EDIT c by (simp add: handleRowChange_def positionInvariant_def)
qed

lemma positionInvariant_handleOnClose:
  "positionInvariant g s \<Longrightarrow> positionInvariant g (fst (handleOnClose g s c))"
  by (simp add: handleOnClose_def positionInvariant_closeEditor)

lemma positionInvariant_navigate:
  assumes "positionInvariant g s"
  shows "positionInvariant g (stateAfter s (navigate g s ev))"
proof -
  have sel: "positionInvariant g (stateAfter s (selectCell g s p False))" for p
    using assms by (rule positionInvariant_selectCell)
  have pd: "stateAfter s (case out of Inl (err, effs) \<Rightarrow> Inl (err, PreventDefault # effs)
                           | Inr (s', effs) \<Rightarrow> Inr (s', PreventDefault # effs))
            = stateAfter s out" for out :: "('a, 'c) outcome"
    by (simp add: stateAfter_def split: sum.splits prod.splits)
  show ?thesis
    using assms sel
    by (simp add: navigate_def Let_def pd split: sum.splits bool.splits)
       (auto simp: stateAfter_def)
qed

lemma positionInvariant_handleKeyDown:
  assumes "positionInvariant g s"
  shows "positionInvariant g (stateAfter s (handleKeyDown g s ev))"
proof -
  have copy: "positionInvariant g (stateAfter s (handleCopy g s))"
    using assms
    by (auto simp: handleCopy_def stateAfter_def Let_def positionInvariant_def
          split: option.splits)
  have paste: "stateAfter s (handlePaste g s) = s"
    by (auto simp: handlePaste_def stateAfter_def Let_def
          split: option.splits sum.splits bool.splits if_splits)
  have "positionInvariant g (s\<lparr> copiedCell := None \<rparr>)"
    using assms by (simp add: positionInvariant_def)
  then have esc: "positionInvariant g (closeEditor s (s\<lparr> copiedCell := None \<rparr>))"
    by (rule positionInvariant_closeEditor) simp
  have sw: "positionInvariant g (stateAfter s (keyDownSwitch g s ev))"
    using esc positionInvariant_navigate [OF assms] positionInvariant_handleCellInput [OF assms]
    by (simp add: keyDownSwitch_def stateAfter_def)
  show ?thesis
    using assms copy paste sw
    by (simp add: handleKeyDown_def Let_def split: option.splits flat_row.splits)
       (auto simp: stateAfter_def)
qed

lemma renderChecks_reset:
  assumes "int (length (gridColumns g)) \<le> idx (selectedPosition s)
           \<or> int (length (gridRows g)) \<le> rowIdx (selectedPosition s)"
  shows "selectedPosition (fst (renderChecks g s)) = unselected"
  using assms
  by (auto simp: renderChecks_def Let_def resetOutOfBounds_def closeEditor_def unselected_def
        split: cell_mode.splits)

lemma positionInvariant_renderChecks:
  assumes "positionInvariant g s"
    and "(hasGroups g \<longrightarrow> hasGroups g') \<or> idx (selectedPosition s) \<noteq> -1
         \<or> rowIdx (selectedPosition s) = -1"
  shows "positionInvariant g' (fst (renderChecks g' s))"
proof (cases "int (length (gridColumns g')) \<le> idx (selectedPosition s)
              \<or> int (length (gridRows g')) \<le> rowIdx (selectedPosition s)")
  case True
  then show ?thesis by (simp add: renderChecks_reset positionInvariant_def)
next
  case False
  then have nr: "resetOutOfBounds g' s = s" by (simp add: resetOutOfBounds_def)
  have inv': "positionInvariant g' s"
  proof (cases "selectedPosition s = unselected")
    case True
    then show ?thesis by (simp add: positionInvariant_def)
  next
    case ns: False
    with assms(1) have w: "isCellWithinBounds g (selectedPosition s)"
      by (simp add: positionInvariant_def)
    then have "minColIdx g' \<le> idx (selectedPosition s)"
      using assms(2) by (auto simp: isCellWithinBounds_def minColIdx_def split: if_splits)
    with w False show ?thesis
      by (simp add: positionInvariant_def isCellWithinBounds_def)
  qed
  have "positionInvariant g' (closeEditor s s)"
    using inv' by (rule positionInvariant_closeEditor) simp
  with inv' show ?thesis by (simp add: renderChecks_def Let_def nr)
qed

subsection \<open>The concrete grids\<close>

lemma scenarioB_shape:
  "length (gridColumns scenarioB) = 3" "gridRows scenarioB = [Row 0, Row 1]"
  "\<not> hasGroups scenarioB" "cellNavigationMode scenarioB = CHANGE_ROW"
  "\<not> onSelectedCellChange scenarioB"
  by (simp_all add: scenarioB_def renderDataGrid_columns_length renderDataGrid_rows_ungrouped
        renderDataGrid_hasGroups_no_grouper plainProps_def threeColumns_def)
     (simp_all add: renderDataGrid_def Let_def)

lemma loopGrid_shape:
  "length (gridColumns loopGrid) = 3" "gridRows loopGrid = [Row 0, Row 1]"
  "\<not> hasGroups loopGrid" "cellNavigationMode loopGrid = LOOP_OVER_ROW"
  by (simp_all add: loopGrid_def renderDataGrid_columns_length renderDataGrid_rows_ungrouped
        renderDataGrid_hasGroups_no_grouper plainProps_def threeColumns_def)
     (simp_all add: renderDataGrid_def Let_def)

text \<open>Scenario B as the key handler runs it: the cursor ends at (0, 1).\<close>

lemma scenarioB_navigate:
  "navigate scenarioB (cursorAt 2 0) (keyPress ''ArrowRight'')
     = Inr (cursorAt 0 1, [PreventDefault])"
  by (simp add: navigate_def cursorAt_def keyPress_def getNextPosition_ArrowRight
        scenarioB_shape getNextSelectedCellPosition_def canExitGrid_def Let_def
        selectCell_def isCellWithinBounds_def minColIdx_def commitEditorChanges_def
        initialState_def isCtrlKeyHeldDown_def
        split: option.splits)


lemmas metrics_eval =
  getColumnMetrics_def sizeColumn_def getSpecifiedWidth_def clampColumnWidth_def arraySort_def
  compareColumns_def SELECT_COLUMN_KEY_def calculateColumn_def markLastFrozenColumn_def
  pass1_init_def pass2_init_def unallocatedColumnWidth_def plainColumn_def arrayIncludes_def
  elemAt_def Let_def

lemma groupedGrid_columns:
  "map (\<lambda>c. (key (column c), editor (column c), rowGroup (column c), editable (column c)))
       (gridColumns groupedGrid)
     = [(''region'', None, True, EditableUnset), (''x'', Some (), False, EditableUnset)]"
  "groupBy (viewportColumns groupedGrid) = [''region'']"
  by (simp_all add: groupedGrid_def renderDataGrid_def gridColumns_def pasteProps_def
        plainProps_def regionColumns_def editableColumn_def metrics_eval)

lemma groupRows_sixRows:
  "groupRows regionGrouper sixRows ''region'' [] 0
     = ([(''north'', Group [(''north'', 1), (''north'', 2), (''north'', 3)]
                       (ChildRows [(''north'', 1), (''north'', 2), (''north'', 3)]) 0),
         (''south'', Group [(''south'', 4), (''south'', 5), (''south'', 6)]
                       (ChildRows [(''south'', 4), (''south'', 5), (''south'', 6)]) 4)], 8)"
  by (simp add: regionGrouper_sixRows)

lemma groupedGrid_rows:
  "gridRows groupedGrid
     = [GroupRow \<lparr> id = ''north'', parentId = None, groupKey = ''north'', isExpanded = True,
                   childRows = [(''north'', 1), (''north'', 2), (''north'', 3)], level = 0,
                   posInSet = 0, startRowIndex = 0, setSize = 2 \<rparr>,
        Row (''north'', 1), Row (''north'', 2), Row (''north'', 3),
        GroupRow \<lparr> id = ''south'', parentId = None, groupKey = ''south'', isExpanded = False,
                   childRows = [(''south'', 4), (''south'', 5), (''south'', 6)], level = 0,
                   posInSet = 1, startRowIndex = 4, setSize = 2 \<rparr>]"
  using groupedGrid_columns(2)
  by (simp add: groupedGrid_def renderDataGrid_def gridRows_def pasteProps_def plainProps_def
        Let_def rows_grouped groupRows_sixRows groupId_def isExpandedId_def
        del: groupRows.simps)

lemma groupedGrid_shape:
  "length (gridColumns groupedGrid) = 2" "hasGroups groupedGrid"
  "rawRows groupedGrid = sixRows" "onRowsChange groupedGrid"
  "onPaste groupedGrid = Some mergeNumber"
  using groupedGrid_columns(2) arg_cong [OF groupedGrid_columns(1), of length]
  by (simp_all add: hasGroups_def)
     (simp_all add: groupedGrid_def renderDataGrid_def Let_def pasteProps_def plainProps_def)

lemma groupedGrid_column_x:
  "\<exists>c. elemAt (gridColumns groupedGrid) 1 = Some c \<and> key (column c) = ''x''
       \<and> editor (column c) = Some () \<and> \<not> rowGroup (column c)
       \<and> editable (column c) = EditableUnset"
proof -
  have len: "length (gridColumns groupedGrid) = 2" by (rule groupedGrid_shape)
  have "map (\<lambda>c. (key (column c), editor (column c), rowGroup (column c), editable (column c)))
          (gridColumns groupedGrid) ! 1 = (''x'', Some (), False, EditableUnset)"
    unfolding groupedGrid_columns(1) by simp
  then show ?thesis using len by (simp add: elemAt_def)
qed



lemma regionColumns_ungrouped_columns:
  "map (\<lambda>c. (key (column c), editor (column c), rowGroup (column c), editable (column c)))
       (columns (getColumnMetrics (regionColumns\<lparr> rawGroupBy := None \<rparr>)))
     = [(''region'', None, False, EditableUnset), (''x'', Some (), False, EditableUnset)]"
  by (simp add: regionColumns_def editableColumn_def metrics_eval)

lemma ungroupedGrid_shape:
  "length (gridColumns ungroupedGrid) = 2" "\<not> hasGroups ungroupedGrid"
  "gridRows ungroupedGrid = map Row sixRows" "rawRows ungroupedGrid = sixRows"
  "onRowsChange ungroupedGrid" "\<not> onSelectedCellChange ungroupedGrid"
  "onPaste ungroupedGrid = Some mergeNumber"
  by (simp_all add: ungroupedGrid_def renderDataGrid_columns_length
        renderDataGrid_rows_ungrouped renderDataGrid_hasGroups_no_grouper pasteProps_def
        plainProps_def regionColumns_def)
     (simp_all add: renderDataGrid_def Let_def)

lemma column_x_at_1:
  assumes "map (\<lambda>c. (key (column c), editor (column c), rowGroup (column c), editable (column c)))
             cs = [(k0, e0, g0, d0), (''x'', Some (), False, EditableUnset)]"
  shows "\<exists>c. elemAt cs 1 = Some c \<and> key (column c) = ''x''
             \<and> editor (column c) = Some () \<and> \<not> rowGroup (column c)
             \<and> editable (column c) = EditableUnset"
proof -
  have len: "length cs = 2" using arg_cong [OF assms, of length] by simp
  have "map (\<lambda>c. (key (column c), editor (column c), rowGroup (column c), editable (column c)))
          cs ! 1 = (''x'', Some (), False, EditableUnset)"
    unfolding assms by simp
  then show ?thesis using len by (simp add: elemAt_def)
qed

lemma ungroupedGrid_column_x:
  "\<exists>c. elemAt (gridColumns ungroupedGrid) 1 = Some c \<and> key (column c) = ''x''
       \<and> editor (column c) = Some () \<and> \<not> rowGroup (column c)
       \<and> editable (column c) = EditableUnset"
  by (rule column_x_at_1 [where ?k0.0 = "''region''" and ?e0.0 = None and ?g0.0 = False
        and ?d0.0 = EditableUnset])
     (simp add: ungroupedGrid_def renderDataGrid_def gridColumns_def Let_def pasteProps_def
        plainProps_def regionColumns_ungrouped_columns)

lemma replacedGrid_shape:
  "length (gridColumns replacedGrid) = 2"
  "gridRows replacedGrid = [Row (''north'', 100), Row (''north'', 2)]"
  by (simp_all add: replacedGrid_def renderDataGrid_columns_length
        renderDataGrid_rows_ungrouped pasteProps_def plainProps_def regionColumns_def)

lemma shrunkGrid_shape:
  "length (gridColumns shrunkGrid) = 1"
  "gridRows shrunkGrid = [Row (''north'', 100), Row (''north'', 2)]"
  by (simp_all add: shrunkGrid_def renderDataGrid_columns_length
        renderDataGrid_rows_ungrouped pasteProps_def plainProps_def regionColumns_def)

lemma editingFirstRow_reached:
  "selectCell ungroupedGrid initialState \<lparr> idx = 1, rowIdx = 0 \<rparr> True
     = Inr (editingFirstRow, [])"
proof -
  obtain c where c: "elemAt (gridColumns ungroupedGrid) 1 = Some c"
      "editor (column c) = Some ()" "\<not> rowGroup (column c)" "editable (column c) = EditableUnset"
    using ungroupedGrid_column_x by blast
  have b: "isCellWithinBounds ungroupedGrid \<lparr> idx = 1, rowIdx = 0 \<rparr>"
    by (simp add: isCellWithinBounds_def ungroupedGrid_shape minColIdx_def sixRows_def)
  have r: "elemAt (gridRows ungroupedGrid) 0 = Some (Row (''north'', 1))"
    by (simp add: ungroupedGrid_shape sixRows_def elemAt_def)
  have ed: "isCellEditable ungroupedGrid \<lparr> idx = 1, rowIdx = 0 \<rparr> = Inr True"
    by (simp add: isCellEditable_def b isSelectedCellEditable_def c r isGroupRow_def)
  have cm: "commitEditorChanges ungroupedGrid initialState = []"
    by (simp add: commitEditorChanges_def initialState_def unselected_def split: option.splits)
  show ?thesis
    by (simp add: selectCell_def b ed r cm ungroupedGrid_shape(6) Let_def editingFirstRow_def)
qed


lemma collapsedGrid_shape:
  "length (gridColumns collapsedGrid) = 2" "hasGroups collapsedGrid"
  "length (gridRows collapsedGrid) = 2"
proof -
  have gb: "groupBy (viewportColumns collapsedGrid) = [''region'']"
    by (simp add: collapsedGrid_def renderDataGrid_def pasteProps_def plainProps_def
          regionColumns_def editableColumn_def metrics_eval)
  show "length (gridColumns collapsedGrid) = 2"
    by (simp add: collapsedGrid_def renderDataGrid_columns_length regionColumns_def)
  show "hasGroups collapsedGrid"
    using gb by (simp add: hasGroups_def)
       (simp add: collapsedGrid_def renderDataGrid_def Let_def pasteProps_def plainProps_def)
  show "length (gridRows collapsedGrid) = 2"
    using gb
    by (simp add: collapsedGrid_def renderDataGrid_def gridRows_def pasteProps_def
          plainProps_def Let_def one_level_rows_length regionGrouper_sixRows isExpandedId_def)
qed

subsection \<open>Row selection without a listener or a key getter\<close>

lemma selection_without_listener:
  "\<not> onSelectedRowsChange g \<Longrightarrow> dispatchSelectRow g s i checked shift = Inr (s, [])"
  "\<not> onSelectedRowsChange g \<Longrightarrow> handleAllRowsSelectionChange g s checked = Inr (s, [])"
  by (simp_all add: dispatchSelectRow_def handleAllRowsSelectionChange_def)

lemma selection_without_key_getter:
  "onSelectedRowsChange g \<Longrightarrow> rowKeyGetter g = None \<Longrightarrow>
   dispatchSelectRow g s i checked shift = Inl (MissingKeyGetter, [])"
  "onSelectedRowsChange g \<Longrightarrow> rowKeyGetter g = None \<Longrightarrow>
   handleAllRowsSelectionChange g s checked = Inl (MissingKeyGetter, [])"
  by (simp_all add: dispatchSelectRow_def handleAllRowsSelectionChange_def
        handleRowSelectionChange_def assertIsValidKeyGetter_def)

lemma scenarioB_callbacks:
  "\<not> onSelectedRowsChange scenarioB" "rowKeyGetter scenarioB = None"
  by (simp_all add: scenarioB_def renderDataGrid_def Let_def plainProps_def)

lemma selectableNoGetter_callbacks:
  "onSelectedRowsChange selectableNoGetter" "rowKeyGetter selectableNoGetter = None"
  by (simp_all add: selectableNoGetter_def renderDataGrid_def Let_def plainProps_def)

subsection \<open>Paste without grouping\<close>

text \<open>
  Without a copied cell, or on a cell that is not editable, a paste does nothing. Without
  grouping the flattened index is the raw index, and a paste replaces the target row and
  no other.
\<close>

lemma handlePaste_noop:
  "copiedCell s = None \<or> isCellEditable g (selectedPosition s) = Inr False \<Longrightarrow>
   handlePaste g s = Inr (s, [])"
  by (auto simp: handlePaste_def Let_def split: option.splits)

lemma handlePaste_ungrouped:
  assumes "\<not> hasGroups g" and "gridRows g = map Row (rawRows g)"
    and "onPaste g = Some paste" and "onRowsChange g" and "copiedCell s = Some copied"
    and "isCellEditable g (selectedPosition s) = Inr True"
  shows "\<exists>c. elemAt (gridColumns g) (idx (selectedPosition s)) = Some c \<and>
           handlePaste g s
             = Inr (s, [RowsChange (map Some ((rawRows g)
                   [nat (rowIdx (selectedPosition s)) :=
                      paste \<lparr> sourceRow = row copied, sourceColumnKey = columnKey copied,
                              targetRow = Some (rawRows g ! nat (rowIdx (selectedPosition s))),
                              targetColumnKey = key (column c) \<rparr>]))])"
proof -
  from assms(6) have b: "isCellWithinBounds g (selectedPosition s)"
    by (auto simp: isCellEditable_def split: if_splits)
  then have r: "0 \<le> rowIdx (selectedPosition s)"
      "rowIdx (selectedPosition s) < int (length (rawRows g))"
    using assms(2) by (simp_all add: isCellWithinBounds_def)
  from b assms(6) obtain c where c: "elemAt (gridColumns g) (idx (selectedPosition s)) = Some c"
    by (auto simp: isCellEditable_def isSelectedCellEditable_def split: option.splits)
  have t: "elemAt (rawRows g) (rowIdx (selectedPosition s))
             = Some (rawRows g ! nat (rowIdx (selectedPosition s)))"
    using r by (simp add: elemAt_def)
  show ?thesis
    using assms c r t
    by (simp add: handlePaste_def Let_def getRawRowIdx_ungrouped assignAt_in_range)
qed

section \<open>The claims about the grid\<close>

text \<open>
  Claim C3. Selecting a cell at row index \<open>-1\<close> or \<open>rowCount\<close> is rejected and leaves
  the state as it was, whatever the navigation mode, both when \<open>selectCell\<close> is called
  with such a position and when the position of a cell (a column index within the
  columns) has first passed through the wrap policy of mode \<open>NONE\<close> or \<open>CHANGE_ROW\<close>.
  In mode \<open>LOOP_OVER_ROW\<close> the candidate that ArrowRight produces at the last column is
  mapped to column 0 of the same row, and in mode \<open>CHANGE_ROW\<close> a candidate past the last
  column of a row that is not the last is mapped to column 0 of the next row; in both
  cases the key press moves the cursor there.
\<close>

theorem selection_bounds_and_row_wrap:
  "(rowIdx p = -1 \<or> rowIdx p = int (length (gridRows g)) \<longrightarrow>
      selectCell g s p enableEditor = Inr (s, []))
   \<and> ((navMode = NONE \<or> navMode = CHANGE_ROW)
        \<and> 0 \<le> idx p \<and> idx p < int (length (gridColumns g))
        \<and> (rowIdx p = -1 \<or> rowIdx p = int (length (gridRows g))) \<longrightarrow>
      selectCell g s (getNextSelectedCellPosition navMode (gridColumns g)
                        (int (length (gridRows g))) p) enableEditor = Inr (s, []))
   \<and> (idx (selectedPosition s) = int (length (gridColumns g)) - 1 \<longrightarrow>
        getNextSelectedCellPosition LOOP_OVER_ROW (gridColumns g) (int (length (gridRows g)))
          (getNextPosition g s ''ArrowRight'' ctrl shift)
        = \<lparr> idx = 0, rowIdx = rowIdx (selectedPosition s) \<rparr>)
   \<and> (idx q = int (length (gridColumns g)) \<and> rowIdx q \<noteq> int (length (gridRows g)) - 1 \<longrightarrow>
        getNextSelectedCellPosition CHANGE_ROW (gridColumns g) (int (length (gridRows g))) q
        = \<lparr> idx = 0, rowIdx = rowIdx q + 1 \<rparr>)
   \<and> (mode (selectedPosition s) = SELECT \<and> eventKey e = ''ArrowRight''
        \<and> isCellWithinBounds g (selectedPosition s) \<and> 0 \<le> idx (selectedPosition s)
        \<and> idx (selectedPosition s) = int (length (gridColumns g)) - 1
        \<and> cellNavigationMode g = LOOP_OVER_ROW \<longrightarrow>
        selectedPosition (stateAfter s (navigate g s e))
          = \<lparr> idx = 0, rowIdx = rowIdx (selectedPosition s), mode = SELECT \<rparr>)
   \<and> (mode (selectedPosition s) = SELECT \<and> eventKey e = ''ArrowRight''
        \<and> isCellWithinBounds g (selectedPosition s) \<and> 0 \<le> idx (selectedPosition s)
        \<and> idx (selectedPosition s) = int (length (gridColumns g)) - 1
        \<and> cellNavigationMode g = CHANGE_ROW
        \<and> rowIdx (selectedPosition s) \<noteq> int (length (gridRows g)) - 1 \<longrightarrow>
        selectedPosition (stateAfter s (navigate g s e))
          = \<lparr> idx = 0, rowIdx = rowIdx (selectedPosition s) + 1, mode = SELECT \<rparr>)"
proof (intro conjI impI)
  assume "rowIdx p = -1 \<or> rowIdx p = int (length (gridRows g))"
  then have "\<not> isCellWithinBounds g p" by (auto simp: isCellWithinBounds_def)
  then show "selectCell g s p enableEditor = Inr (s, [])" by (rule selectCell_out_of_bounds)
next
  assume h: "(navMode = NONE \<or> navMode = CHANGE_ROW)
        \<and> 0 \<le> idx p \<and> idx p < int (length (gridColumns g))
        \<and> (rowIdx p = -1 \<or> rowIdx p = int (length (gridRows g)))"
  then have same: "getNextSelectedCellPosition navMode (gridColumns g)
                     (int (length (gridRows g))) p = p"
    by (auto simp: getNextSelectedCellPosition_def Let_def)
  from h have "\<not> isCellWithinBounds g p" by (auto simp: isCellWithinBounds_def)
  then show "selectCell g s (getNextSelectedCellPosition navMode (gridColumns g)
                        (int (length (gridRows g))) p) enableEditor = Inr (s, [])"
    unfolding same by (rule selectCell_out_of_bounds)
next
  assume "idx (selectedPosition s) = int (length (gridColumns g)) - 1"
  then show "getNextSelectedCellPosition LOOP_OVER_ROW (gridColumns g) (int (length (gridRows g)))
          (getNextPosition g s ''ArrowRight'' ctrl shift)
        = \<lparr> idx = 0, rowIdx = rowIdx (selectedPosition s) \<rparr>"
    by (simp add: getNextPosition_ArrowRight getNextSelectedCellPosition_def Let_def)
next
  assume "idx q = int (length (gridColumns g)) \<and> rowIdx q \<noteq> int (length (gridRows g)) - 1"
  then show "getNextSelectedCellPosition CHANGE_ROW (gridColumns g) (int (length (gridRows g))) q
        = \<lparr> idx = 0, rowIdx = rowIdx q + 1 \<rparr>"
    by (simp add: getNextSelectedCellPosition_def Let_def)
next
  assume "mode (selectedPosition s) = SELECT \<and> eventKey e = ''ArrowRight''
        \<and> isCellWithinBounds g (selectedPosition s) \<and> 0 \<le> idx (selectedPosition s)
        \<and> idx (selectedPosition s) = int (length (gridColumns g)) - 1
        \<and> cellNavigationMode g = LOOP_OVER_ROW"
  then show "selectedPosition (stateAfter s (navigate g s e))
          = \<lparr> idx = 0, rowIdx = rowIdx (selectedPosition s), mode = SELECT \<rparr>"
    using navigate_ArrowRight_wrap(1) [of s e g] by blast
next
  assume "mode (selectedPosition s) = SELECT \<and> eventKey e = ''ArrowRight''
        \<and> isCellWithinBounds g (selectedPosition s) \<and> 0 \<le> idx (selectedPosition s)
        \<and> idx (selectedPosition s) = int (length (gridColumns g)) - 1
        \<and> cellNavigationMode g = CHANGE_ROW
        \<and> rowIdx (selectedPosition s) \<noteq> int (length (gridRows g)) - 1"
  then show "selectedPosition (stateAfter s (navigate g s e))
          = \<lparr> idx = 0, rowIdx = rowIdx (selectedPosition s) + 1, mode = SELECT \<rparr>"
    using navigate_ArrowRight_wrap(2) [of s e g] by blast
qed

text \<open>
  Scenario B (three columns, two rows, \<open>CHANGE_ROW\<close>, cursor at (2, 0), ArrowRight) ends
  at (0, 1); in \<open>LOOP_OVER_ROW\<close> the same key press ends at (0, 0); rows \<open>-1\<close> and \<open>2\<close>
  are rejected.
\<close>

theorem selection_bounds_and_row_wrap_witness:
  "selectCell scenarioB (cursorAt 2 0) \<lparr> idx = 1, rowIdx = -1 \<rparr> False = Inr (cursorAt 2 0, [])
   \<and> selectCell scenarioB (cursorAt 2 0) \<lparr> idx = 1, rowIdx = 2 \<rparr> False = Inr (cursorAt 2 0, [])
   \<and> selectedPosition (stateAfter (cursorAt 2 0)
        (navigate scenarioB (cursorAt 2 0) (keyPress ''ArrowRight'')))
       = \<lparr> idx = 0, rowIdx = 1, mode = SELECT \<rparr>
   \<and> selectedPosition (stateAfter (cursorAt 2 0)
        (navigate loopGrid (cursorAt 2 0) (keyPress ''ArrowRight'')))
       = \<lparr> idx = 0, rowIdx = 0, mode = SELECT \<rparr>"
proof -
  have pos: "mode (selectedPosition (cursorAt 2 0 :: nat grid_state)) = SELECT"
    "idx (selectedPosition (cursorAt 2 0 :: nat grid_state)) = 2"
    "rowIdx (selectedPosition (cursorAt 2 0 :: nat grid_state)) = 0"
    by (simp_all add: cursorAt_def)
  have key: "eventKey (keyPress ''ArrowRight'') = ''ArrowRight''"
    by (simp add: keyPress_def)
  have bB: "isCellWithinBounds scenarioB (selectedPosition (cursorAt 2 0 :: nat grid_state))"
    by (simp add: isCellWithinBounds_def pos scenarioB_shape minColIdx_def)
  have bL: "isCellWithinBounds loopGrid (selectedPosition (cursorAt 2 0 :: nat grid_state))"
    by (simp add: isCellWithinBounds_def pos loopGrid_shape minColIdx_def)
  note tB = selection_bounds_and_row_wrap
    [of _ scenarioB "cursorAt 2 0" False NONE True False "\<lparr> idx = 3, rowIdx = 0 \<rparr>"
        "keyPress ''ArrowRight''"]
  note tL = selection_bounds_and_row_wrap
    [of "\<lparr> idx = 1, rowIdx = -1 \<rparr>" loopGrid "cursorAt 2 0" False NONE True False
        "\<lparr> idx = 3, rowIdx = 0 \<rparr>" "keyPress ''ArrowRight''"]
  have 1: "selectCell scenarioB (cursorAt 2 0) \<lparr> idx = 1, rowIdx = -1 \<rparr> False
             = Inr (cursorAt 2 0, [])"
    using tB [of "\<lparr> idx = 1, rowIdx = -1 \<rparr>"] by simp
  have 2: "selectCell scenarioB (cursorAt 2 0) \<lparr> idx = 1, rowIdx = 2 \<rparr> False
             = Inr (cursorAt 2 0, [])"
    using tB [of "\<lparr> idx = 1, rowIdx = 2 \<rparr>"] by (simp add: scenarioB_shape)
  have 3: "selectedPosition (stateAfter (cursorAt 2 0)
        (navigate scenarioB (cursorAt 2 0) (keyPress ''ArrowRight'')))
       = \<lparr> idx = 0, rowIdx = 1, mode = SELECT \<rparr>"
    using tB [of "\<lparr> idx = 1, rowIdx = -1 \<rparr>"] pos key bB by (simp add: scenarioB_shape)
  have 4: "selectedPosition (stateAfter (cursorAt 2 0)
        (navigate loopGrid (cursorAt 2 0) (keyPress ''ArrowRight'')))
       = \<lparr> idx = 0, rowIdx = 0, mode = SELECT \<rparr>"
    using tL pos key bL by (simp add: loopGrid_shape)
  show ?thesis using 1 2 3 4 by simp
qed

text \<open>
  Claim C4, as stated: when, in EDIT mode, the row at the edited row index is no longer
  the snapshotted original, the editor is force-closed, the mode is SELECT again, idx and
  rowIdx are unchanged and no callback fires. The position does change when the same
  render also finds it out of bounds: the caller replaces the first row by a new object
  and removes a column, so that the edited column index 1 is no longer below the column
  count; the reset of the position runs first and the position ends at (-1, -1).
\<close>

theorem stale_edit_position_counterexample:
  "selectCell ungroupedGrid initialState \<lparr> idx = 1, rowIdx = 0 \<rparr> True
     = Inr (editingFirstRow, [])
   \<and> mode (selectedPosition editingFirstRow) = EDIT None (''north'', 1) (''north'', 1)
   \<and> elemAt (gridRows shrunkGrid) (rowIdx (selectedPosition editingFirstRow))
       = Some (Row (''north'', 100))
   \<and> (''north'', 100) \<noteq> (''north'', 1::nat)
   \<and> idx (selectedPosition editingFirstRow) = 1
   \<and> rowIdx (selectedPosition editingFirstRow) = 0
   \<and> idx (selectedPosition (fst (renderChecks shrunkGrid editingFirstRow))) = -1
   \<and> rowIdx (selectedPosition (fst (renderChecks shrunkGrid editingFirstRow))) = -1"
proof -
  have pos: "mode (selectedPosition editingFirstRow) = EDIT None (''north'', 1) (''north'', 1)"
    "idx (selectedPosition editingFirstRow) = 1" "rowIdx (selectedPosition editingFirstRow) = 0"
    by (simp_all add: editingFirstRow_def)
  have r: "elemAt (gridRows shrunkGrid) 0 = Some (Row (''north'', 100))"
    by (simp add: shrunkGrid_shape elemAt_def)
  have "selectedPosition (fst (renderChecks shrunkGrid editingFirstRow)) = unselected"
    by (rule renderChecks_reset) (simp add: pos shrunkGrid_shape)
  then show ?thesis using editingFirstRow_reached pos r by (simp add: unselected_def)
qed

text \<open>
  Claim C4, amended. When, in EDIT mode, the row at the edited row index is no longer the
  snapshotted original, the render force-closes the editor: the mode is SELECT again and
  no callback fires (the discarded edit is not committed). If idx and rowIdx are still
  below the column and row counts they are unchanged; otherwise the reset of the same
  render moves the position to the unselected sentinel.
\<close>

theorem stale_edit_force_closed:
  assumes "mode (selectedPosition s) = EDIT k r orig"
    and "elemAt (gridRows g) (rowIdx (selectedPosition s)) \<noteq> Some (Row orig)"
  shows "mode (selectedPosition (fst (renderChecks g s))) = SELECT
         \<and> snd (renderChecks g s) = []
         \<and> (idx (selectedPosition s) < int (length (gridColumns g))
              \<and> rowIdx (selectedPosition s) < int (length (gridRows g)) \<longrightarrow>
            idx (selectedPosition (fst (renderChecks g s))) = idx (selectedPosition s)
            \<and> rowIdx (selectedPosition (fst (renderChecks g s))) = rowIdx (selectedPosition s))
         \<and> (\<not> (idx (selectedPosition s) < int (length (gridColumns g))
                 \<and> rowIdx (selectedPosition s) < int (length (gridRows g))) \<longrightarrow>
            selectedPosition (fst (renderChecks g s)) = unselected)"
  using assms by (rule renderChecks_stale)

text \<open>
  Scenario C: the rows are replaced by new objects while the editor is open on the first
  row; the editor closes, the cursor stays at (1, 0), nothing is committed.
\<close>

theorem stale_edit_force_closed_witness:
  "mode (selectedPosition editingFirstRow) = EDIT None (''north'', 1) (''north'', 1)
   \<and> elemAt (gridRows replacedGrid) (rowIdx (selectedPosition editingFirstRow))
       \<noteq> Some (Row (''north'', 1))
   \<and> idx (selectedPosition editingFirstRow) < int (length (gridColumns replacedGrid))
   \<and> rowIdx (selectedPosition editingFirstRow) < int (length (gridRows replacedGrid))
   \<and> selectedPosition (fst (renderChecks replacedGrid editingFirstRow))
       = \<lparr> idx = 1, rowIdx = 0, mode = SELECT \<rparr>
   \<and> snd (renderChecks replacedGrid editingFirstRow) = []"
proof -
  have pos: "mode (selectedPosition editingFirstRow) = EDIT None (''north'', 1) (''north'', 1)"
    "idx (selectedPosition editingFirstRow) = 1" "rowIdx (selectedPosition editingFirstRow) = 0"
    by (simp_all add: editingFirstRow_def)
  have r: "elemAt (gridRows replacedGrid) (rowIdx (selectedPosition editingFirstRow))
             \<noteq> Some (Row (''north'', 1))"
    by (simp add: replacedGrid_shape elemAt_def pos)
  have b: "idx (selectedPosition editingFirstRow) < int (length (gridColumns replacedGrid))"
    "rowIdx (selectedPosition editingFirstRow) < int (length (gridRows replacedGrid))"
    by (simp_all add: pos replacedGrid_shape)
  from stale_edit_force_closed [OF pos(1) r] b pos
  have f: "mode (selectedPosition (fst (renderChecks replacedGrid editingFirstRow))) = SELECT"
    "idx (selectedPosition (fst (renderChecks replacedGrid editingFirstRow))) = 1"
    "rowIdx (selectedPosition (fst (renderChecks replacedGrid editingFirstRow))) = 0"
    and e: "snd (renderChecks replacedGrid editingFirstRow) = []"
    by simp_all
  from f have "selectedPosition (fst (renderChecks replacedGrid editingFirstRow))
       = \<lparr> idx = 1, rowIdx = 0, mode = SELECT \<rparr>"
    by (cases "selectedPosition (fst (renderChecks replacedGrid editingFirstRow))") simp
  then show ?thesis using pos(1) r b e by simp
qed

text \<open>
  Claim C5. A paste must replace the target row by the merged row and leave every other
  row as it was. \<^verbatim>\<open>handlePaste\<close> reads the target row at its raw index,
  \<^verbatim>\<open>rawRows[getRawRowIdx(rowIdx)]\<close>, but writes the merged row at the flattened index,
  \<^verbatim>\<open>updatedRows[rowIdx]\<close>. In the grouped grid the cursor is on the row
  \<open>(north, 2)\<close>, entry 2 of the flattened rows and raw row 1, and Ctrl+V reaches
  \<^verbatim>\<open>handlePaste\<close>: the array handed to \<^verbatim>\<open>onRowsChange\<close> still holds the target row
  \<open>(north, 2)\<close> at index 1 and has lost the row \<open>(north, 3)\<close> at index 2 to the merged
  row.
\<close>

theorem handlePaste_grouped_wrong_row:
  "handleKeyDown groupedGrid pasteState ctrlV = handlePaste groupedGrid pasteState
   \<and> handlePaste groupedGrid pasteState
       = Inr (pasteState,
              [RowsChange [Some (''north'', 1), Some (''north'', 2), Some (''north'', 1),
                           Some (''south'', 4), Some (''south'', 5), Some (''south'', 6)]])
   \<and> elemAt (gridRows groupedGrid) (rowIdx (selectedPosition pasteState))
       = Some (Row (''north'', 2))
   \<and> getRawRowIdx groupedGrid (rowIdx (selectedPosition pasteState)) = 1
   \<and> rawRows groupedGrid
       = [(''north'', 1), (''north'', 2), (''north'', 3),
          (''south'', 4), (''south'', 5), (''south'', 6)]"
proof -
  obtain c where c: "elemAt (gridColumns groupedGrid) 1 = Some c" "key (column c) = ''x''"
      "editor (column c) = Some ()" "\<not> rowGroup (column c)" "editable (column c) = EditableUnset"
    using groupedGrid_column_x by blast
  have pos: "idx (selectedPosition pasteState) = 1" "rowIdx (selectedPosition pasteState) = 2"
      "mode (selectedPosition pasteState) = SELECT"
      "copiedCell pasteState = Some \<lparr> row = Some (''north'', 1), columnKey = ''x'' \<rparr>"
    by (simp_all add: pasteState_def cursorAt_def initialState_def)
  have row: "elemAt (gridRows groupedGrid) 2 = Some (Row (''north'', 2))"
    by (simp add: groupedGrid_rows elemAt_def)
  have raw: "getRawRowIdx groupedGrid 2 = 1"
    by (simp add: getRawRowIdx_def groupedGrid_shape row sixRows_def)
  have bounds: "isCellWithinBounds groupedGrid (selectedPosition pasteState)"
    by (simp add: isCellWithinBounds_def pos groupedGrid_shape groupedGrid_rows minColIdx_def)
  have ed: "isCellEditable groupedGrid (selectedPosition pasteState) = Inr True"
    by (simp add: isCellEditable_def bounds isSelectedCellEditable_def pos c row isGroupRow_def)
  have paste: "handlePaste groupedGrid pasteState
       = Inr (pasteState,
              [RowsChange [Some (''north'', 1), Some (''north'', 2), Some (''north'', 1),
                           Some (''south'', 4), Some (''south'', 5), Some (''south'', 6)]])"
    by (simp add: handlePaste_def pos groupedGrid_shape ed c raw Let_def mergeNumber_def
          assignAt_def sixRows_def elemAt_def)
  have key: "handleKeyDown groupedGrid pasteState ctrlV = handlePaste groupedGrid pasteState"
    by (simp add: handleKeyDown_def pos groupedGrid_shape bounds row isGroupRow_def ctrlV_def
          keyPress_def isCtrlKeyHeldDown_def Let_def)
  show ?thesis using paste key row raw pos by (simp add: groupedGrid_shape sixRows_def)
qed

text \<open>
  Claim C7. \<^verbatim>\<open>commitEditorChanges\<close> calls no callback in SELECT mode or when the staged
  row is the original. When it proceeds (EDIT mode, a staged row that is not the
  original, a column with an editor) and the caller listens, \<^verbatim>\<open>onRowsChange\<close>
  receives a copy of the raw rows with the staged row assigned at the raw index of the
  edited row. That copy agrees with the raw rows everywhere but at that index; the raw
  index is the row index without grouping, and with grouping it is the index of the
  edited row in the raw rows.
\<close>

theorem commitEditorChanges_commit:
  "(mode (selectedPosition s) = SELECT \<longrightarrow> commitEditorChanges g s = [])
   \<and> (mode (selectedPosition s) = EDIT k r r \<longrightarrow> commitEditorChanges g s = [])
   \<and> (mode (selectedPosition s) = EDIT k r orig \<and> r \<noteq> orig
        \<and> elemAt (gridColumns g) (idx (selectedPosition s)) = Some c
        \<and> editor (column c) \<noteq> None \<and> onRowsChange g \<longrightarrow>
      commitEditorChanges g s
        = [RowsChange (assignAt (rawRows g) (getRawRowIdx g (rowIdx (selectedPosition s))) r)])
   \<and> (0 \<le> getRawRowIdx g i \<and> getRawRowIdx g i < int (length (rawRows g)) \<longrightarrow>
        assignAt (rawRows g) (getRawRowIdx g i) r
          = map Some ((rawRows g)[nat (getRawRowIdx g i) := r]))
   \<and> (\<not> hasGroups g \<longrightarrow> getRawRowIdx g i = i)
   \<and> (hasGroups g \<and> elemAt (gridRows g) i = Some (Row x) \<and> x \<in> set (rawRows g) \<longrightarrow>
        0 \<le> getRawRowIdx g i \<and> getRawRowIdx g i < int (length (rawRows g))
        \<and> rawRows g ! nat (getRawRowIdx g i) = x)"
proof (intro conjI impI)
  assume "mode (selectedPosition s) = SELECT"
  then show "commitEditorChanges g s = []"
    by (simp add: commitEditorChanges_def split: option.splits)
next
  assume "mode (selectedPosition s) = EDIT k r r"
  then show "commitEditorChanges g s = []"
    by (simp add: commitEditorChanges_def split: option.splits)
next
  assume "mode (selectedPosition s) = EDIT k r orig \<and> r \<noteq> orig
        \<and> elemAt (gridColumns g) (idx (selectedPosition s)) = Some c
        \<and> editor (column c) \<noteq> None \<and> onRowsChange g"
  then show "commitEditorChanges g s
        = [RowsChange (assignAt (rawRows g) (getRawRowIdx g (rowIdx (selectedPosition s))) r)]"
    by (simp add: commitEditorChanges_def)
next
  assume "0 \<le> getRawRowIdx g i \<and> getRawRowIdx g i < int (length (rawRows g))"
  then show "assignAt (rawRows g) (getRawRowIdx g i) r
          = map Some ((rawRows g)[nat (getRawRowIdx g i) := r])"
    by (simp add: assignAt_in_range)
next
  assume "\<not> hasGroups g"
  then show "getRawRowIdx g i = i" by (rule getRawRowIdx_ungrouped)
next
  assume h: "hasGroups g \<and> elemAt (gridRows g) i = Some (Row x) \<and> x \<in> set (rawRows g)"
  then have "0 \<le> getRawRowIdx g i \<and> getRawRowIdx g i < int (length (rawRows g))
        \<and> rawRows g ! nat (getRawRowIdx g i) = x"
    using getRawRowIdx_grouped [of g i x] by blast
  then show "0 \<le> getRawRowIdx g i" "getRawRowIdx g i < int (length (rawRows g))"
    "rawRows g ! nat (getRawRowIdx g i) = x" by simp_all
qed

text \<open>
  An edit of the third row of the ungrouped grid is committed: the third entry of the
  array is the staged row, and a cursor that is not editing commits nothing. In the
  grouped grid the entry 2 of the flattened rows is raw row 1.
\<close>

theorem commitEditorChanges_commit_witness:
  "commitEditorChanges ungroupedGrid editingState
     = [RowsChange [Some (''north'', 1), Some (''north'', 2), Some (''north'', 30),
                    Some (''south'', 4), Some (''south'', 5), Some (''south'', 6)]]
   \<and> commitEditorChanges ungroupedGrid (cursorAt 1 2) = []
   \<and> getRawRowIdx groupedGrid 2 = 1"
proof -
  obtain c where c: "elemAt (gridColumns ungroupedGrid) 1 = Some c"
      "editor (column c) = Some ()"
    using ungroupedGrid_column_x by blast
  have pos: "mode (selectedPosition editingState) = EDIT None (''north'', 30) (''north'', 3)"
    "idx (selectedPosition editingState) = 1" "rowIdx (selectedPosition editingState) = 2"
    by (simp_all add: editingState_def)
  note t = commitEditorChanges_commit
    [of editingState ungroupedGrid None "(''north'', 30)" "(''north'', 3)" c 2]
  have raw: "getRawRowIdx ungroupedGrid 2 = 2"
    using t ungroupedGrid_shape(2) by blast
  have "commitEditorChanges ungroupedGrid editingState
          = [RowsChange (assignAt (rawRows ungroupedGrid) 2 (''north'', 30))]"
    using t pos c ungroupedGrid_shape(5) raw by simp
  moreover have "assignAt (rawRows ungroupedGrid) 2 (''north'', 30)
          = map Some ((rawRows ungroupedGrid)[nat 2 := (''north'', 30)])"
    using t raw by (simp add: ungroupedGrid_shape sixRows_def)
  ultimately have 1: "commitEditorChanges ungroupedGrid editingState
     = [RowsChange [Some (''north'', 1), Some (''north'', 2), Some (''north'', 30),
                    Some (''south'', 4), Some (''south'', 5), Some (''south'', 6)]]"
    by (simp add: ungroupedGrid_shape sixRows_def)
  have 2: "commitEditorChanges ungroupedGrid (cursorAt 1 2) = []"
    using commitEditorChanges_commit [of "cursorAt 1 2" ungroupedGrid]
    by (simp add: cursorAt_def)
  have row: "elemAt (gridRows groupedGrid) 2 = Some (Row (''north'', 2))"
    by (simp add: groupedGrid_rows elemAt_def)
  have "rawRows groupedGrid ! nat (getRawRowIdx groupedGrid 2) = (''north'', 2)
        \<and> 0 \<le> getRawRowIdx groupedGrid 2 \<and> getRawRowIdx groupedGrid 2 < 6"
    using commitEditorChanges_commit [of _ groupedGrid _ _ _ _ 2 "(''north'', 2)"]
      groupedGrid_shape(2) row
    by (simp add: groupedGrid_shape sixRows_def)
  then have 3: "getRawRowIdx groupedGrid 2 = 1"
    by (simp add: getRawRowIdx_def groupedGrid_shape row sixRows_def)
  show ?thesis using 1 2 3 by simp
qed

text \<open>
  Claim C9, as stated: every row-selection operation throws when the caller has supplied
  no valid key getter, and is never a silent no-op. When the caller has not supplied
  \<^verbatim>\<open>onSelectedRowsChange\<close> either, the handler of \<^verbatim>\<open>SelectRow\<close> is not subscribed
  and the select-all handler returns before the assertion: toggling a row, shift-clicking
  and selecting all do nothing and throw nothing.
\<close>

theorem row_selection_without_key_getter_counterexample:
  "rowKeyGetter scenarioB = None
   \<and> dispatchSelectRow scenarioB initialState 0 True False = Inr (initialState, [])
   \<and> dispatchSelectRow scenarioB initialState 1 True True = Inr (initialState, [])
   \<and> handleAllRowsSelectionChange scenarioB initialState True = Inr (initialState, [])"
  by (simp add: scenarioB_callbacks selection_without_listener)

text \<open>
  Claim C9, amended. When the caller has supplied \<^verbatim>\<open>onSelectedRowsChange\<close> but no valid
  key getter, every row-selection operation (toggle of a row, shift-click, toggle of a
  group row, select-all) throws before it calls anything or changes anything. When the
  caller has not supplied \<^verbatim>\<open>onSelectedRowsChange\<close>, every such operation does nothing,
  with or without a key getter.
\<close>

theorem row_selection_without_key_getter:
  "(onSelectedRowsChange g \<and> rowKeyGetter g = None \<longrightarrow>
      dispatchSelectRow g s i checked shift = Inl (MissingKeyGetter, [])
      \<and> handleAllRowsSelectionChange g s checked = Inl (MissingKeyGetter, []))
   \<and> (\<not> onSelectedRowsChange g \<longrightarrow>
      dispatchSelectRow g s i checked shift = Inr (s, [])
      \<and> handleAllRowsSelectionChange g s checked = Inr (s, []))"
  by (simp add: selection_without_listener selection_without_key_getter)

theorem row_selection_without_key_getter_witness:
  "onSelectedRowsChange selectableNoGetter \<and> rowKeyGetter selectableNoGetter = None
   \<and> dispatchSelectRow selectableNoGetter initialState 0 True False = Inl (MissingKeyGetter, [])
   \<and> handleAllRowsSelectionChange selectableNoGetter initialState True
       = Inl (MissingKeyGetter, [])
   \<and> \<not> onSelectedRowsChange scenarioB
   \<and> dispatchSelectRow scenarioB initialState 0 True False = Inr (initialState, [])"
  using row_selection_without_key_getter [of selectableNoGetter initialState 0 True False]
        row_selection_without_key_getter [of scenarioB initialState 0 True False]
        selectableNoGetter_callbacks scenarioB_callbacks
  by simp

subsection \<open>The invariant of the selected position\<close>

text \<open>
  The initial position satisfies the invariant (sentinel or within bounds),
  \<open>selectCell\<close> rejects a target out of bounds, and every handler that sets the position
  keeps the invariant: \<open>selectCell\<close>, \<open>closeEditor\<close>, the key input that opens the
  editor, a row change of the editor, the close of the editor, navigation and the key
  handler as a whole. A position whose idx or rowIdx is no longer below the column or row
  count of a render is reset to the sentinel, and the checks at the end of a render with
  new rows and columns keep the invariant in every case but one: grouping has been
  switched off while a whole row (idx \<open>-1\<close>, rowIdx \<open>\<ge> 0\<close>) is selected.
\<close>

lemma positionInvariant_handlers:
  assumes "positionInvariant g s"
  shows "positionInvariant g (initialState :: 'r grid_state)
         \<and> (\<not> isCellWithinBounds g p \<longrightarrow> selectCell g s p enableEditor = Inr (s, []))
         \<and> positionInvariant g (stateAfter s (selectCell g s p enableEditor))
         \<and> positionInvariant g (closeEditor s s)
         \<and> positionInvariant g (stateAfter s (handleCellInput g s e))
         \<and> positionInvariant g (fst (handleRowChange g s r commitChanges))
         \<and> positionInvariant g (fst (handleOnClose g s commitChanges))
         \<and> positionInvariant g (stateAfter s (navigate g s e))
         \<and> positionInvariant g (stateAfter s (handleKeyDown g s e))
         \<and> ((hasGroups g \<longrightarrow> hasGroups g') \<or> idx (selectedPosition s) \<noteq> -1
              \<or> rowIdx (selectedPosition s) = -1 \<longrightarrow>
            positionInvariant g' (fst (renderChecks g' s)))
         \<and> (int (length (gridColumns g')) \<le> idx (selectedPosition s)
              \<or> int (length (gridRows g')) \<le> rowIdx (selectedPosition s) \<longrightarrow>
            selectedPosition (fst (renderChecks g' s)) = unselected)"
proof (intro conjI impI)
  show "positionInvariant g (initialState :: 'r grid_state)"
    by (rule positionInvariant_initial)
  show "positionInvariant g (stateAfter s (selectCell g s p enableEditor))"
    using assms by (rule positionInvariant_selectCell)
  show "positionInvariant g (closeEditor s s)"
    using assms by (rule positionInvariant_closeEditor) simp
  show "positionInvariant g (stateAfter s (handleCellInput g s e))"
    using assms by (rule positionInvariant_handleCellInput)
  show "positionInvariant g (fst (handleRowChange g s r commitChanges))"
    using assms by (rule positionInvariant_handleRowChange)
  show "positionInvariant g (fst (handleOnClose g s commitChanges))"
    using assms by (rule positionInvariant_handleOnClose)
  show "positionInvariant g (stateAfter s (navigate g s e))"
    using assms by (rule positionInvariant_navigate)
  show "positionInvariant g (stateAfter s (handleKeyDown g s e))"
    using assms by (rule positionInvariant_handleKeyDown)
next
  assume "\<not> isCellWithinBounds g p"
  then show "selectCell g s p enableEditor = Inr (s, [])"
    by (rule selectCell_out_of_bounds)
next
  assume "(hasGroups g \<longrightarrow> hasGroups g') \<or> idx (selectedPosition s) \<noteq> -1
            \<or> rowIdx (selectedPosition s) = -1"
  with assms show "positionInvariant g' (fst (renderChecks g' s))"
    by (rule positionInvariant_renderChecks)
next
  assume "int (length (gridColumns g')) \<le> idx (selectedPosition s)
            \<or> int (length (gridRows g')) \<le> rowIdx (selectedPosition s)"
  then show "selectedPosition (fst (renderChecks g' s)) = unselected"
    by (rule renderChecks_reset)
qed

text \<open>
  The cursor is at (1, 3) of the grouped grid, on the row \<open>(north, 3)\<close>. A target in row 5
  is rejected. When every group is collapsed only two rows are left, and the render
  resets the position to the sentinel.
\<close>

lemma positionInvariant_handlers_example:
  "positionInvariant groupedGrid (cursorAt 1 3 :: (string \<times> nat) grid_state)
   \<and> \<not> isCellWithinBounds groupedGrid \<lparr> idx = 0, rowIdx = 5 \<rparr>
   \<and> selectCell groupedGrid (cursorAt 1 3) \<lparr> idx = 0, rowIdx = 5 \<rparr> False
       = Inr (cursorAt 1 3, [])
   \<and> hasGroups groupedGrid \<and> hasGroups collapsedGrid
   \<and> int (length (gridRows collapsedGrid))
       \<le> rowIdx (selectedPosition (cursorAt 1 3 :: (string \<times> nat) grid_state))
   \<and> selectedPosition (fst (renderChecks collapsedGrid (cursorAt 1 3))) = unselected
   \<and> positionInvariant collapsedGrid (fst (renderChecks collapsedGrid (cursorAt 1 3)))"
proof -
  have inv: "positionInvariant groupedGrid (cursorAt 1 3 :: (string \<times> nat) grid_state)"
    by (simp add: positionInvariant_def cursorAt_def isCellWithinBounds_def groupedGrid_shape
          groupedGrid_rows minColIdx_def)
  have nb: "\<not> isCellWithinBounds groupedGrid \<lparr> idx = 0, rowIdx = 5 \<rparr>"
    by (simp add: isCellWithinBounds_def groupedGrid_rows)
  have g: "hasGroups groupedGrid" "hasGroups collapsedGrid"
    by (simp_all add: collapsedGrid_shape groupedGrid_shape)
  have len: "int (length (gridRows collapsedGrid))
               \<le> rowIdx (selectedPosition (cursorAt 1 3 :: (string \<times> nat) grid_state))"
    by (simp add: collapsedGrid_shape cursorAt_def)
  note t = positionInvariant_handlers
    [OF inv, of "\<lparr> idx = 0, rowIdx = 5 \<rparr>" False _ _ _ collapsedGrid]
  show ?thesis using t inv nb g len by blast
qed

text \<open>
  Claim C10. The selected position is to be, after every operation, the unselected
  sentinel or within the bounds \<open>rowIdx \<in> [0, rows.length)\<close>,
  \<open>idx \<in> [minColIdx, columns.length)\<close>, and a render whose rows or columns leave the
  position out of bounds is to reset it to the sentinel. The reset at the end of a render,
  \<^verbatim>\<open>selectedPosition.idx >= columns.length || selectedPosition.rowIdx >= rows.length\<close>,
  tests the upper bounds only, although \<^verbatim>\<open>isCellWithinBounds\<close> asks for
  \<^verbatim>\<open>idx >= minColIdx\<close> as well. In the grouped grid a click on the first group row
  selects (-1, 0), a position within bounds while \<open>minColIdx\<close> is -1. When the caller then
  stops grouping, \<open>minColIdx\<close> is 0 and (-1, 0) is out of bounds, a target that
  \<open>selectCell\<close> rejects on that grid; the render leaves the position as it is, so the
  selected position is neither the sentinel nor within bounds.
\<close>

theorem resetOutOfBounds_misses_lower_bound:
  "positionInvariant groupedGrid (initialState :: (string \<times> nat) grid_state)
   \<and> selectCell groupedGrid initialState \<lparr> idx = -1, rowIdx = 0 \<rparr> False
       = Inr (cursorAt (-1) 0, [])
   \<and> positionInvariant groupedGrid (cursorAt (-1) 0 :: (string \<times> nat) grid_state)
   \<and> hasGroups groupedGrid \<and> \<not> hasGroups ungroupedGrid
   \<and> rawRows ungroupedGrid = rawRows groupedGrid
   \<and> \<not> isCellWithinBounds ungroupedGrid \<lparr> idx = -1, rowIdx = 0 \<rparr>
   \<and> selectCell ungroupedGrid (cursorAt 1 1) \<lparr> idx = -1, rowIdx = 0 \<rparr> False
       = Inr (cursorAt 1 1, [])
   \<and> renderChecks ungroupedGrid (cursorAt (-1) 0) = (cursorAt (-1) 0, [])
   \<and> selectedPosition (fst (renderChecks ungroupedGrid (cursorAt (-1) 0)))
       = \<lparr> idx = -1, rowIdx = 0, mode = SELECT \<rparr>
   \<and> selectedPosition (fst (renderChecks ungroupedGrid (cursorAt (-1) 0)))
       \<noteq> (unselected :: (string \<times> nat) selected_position)
   \<and> \<not> positionInvariant ungroupedGrid
         (fst (renderChecks ungroupedGrid (cursorAt (-1) 0)))"
proof -
  have b: "isCellWithinBounds groupedGrid \<lparr> idx = -1, rowIdx = 0 \<rparr>"
    by (simp add: isCellWithinBounds_def groupedGrid_shape groupedGrid_rows minColIdx_def)
  have cm: "commitEditorChanges groupedGrid (initialState :: (string \<times> nat) grid_state) = []"
    by (simp add: commitEditorChanges_def initialState_def unselected_def split: option.splits)
  have nc: "\<not> onSelectedCellChange groupedGrid"
    by (simp add: groupedGrid_def renderDataGrid_def Let_def pasteProps_def plainProps_def)
  have 1: "selectCell groupedGrid initialState \<lparr> idx = -1, rowIdx = 0 \<rparr> False
             = Inr (cursorAt (-1) 0, [])"
    by (simp add: selectCell_select [OF b] cm nc cursorAt_def)
  have 2: "positionInvariant groupedGrid (cursorAt (-1) 0 :: (string \<times> nat) grid_state)"
    using b by (simp add: positionInvariant_def cursorAt_def isCellWithinBounds_def)
  have g: "hasGroups groupedGrid" "\<not> hasGroups ungroupedGrid"
      "rawRows ungroupedGrid = rawRows groupedGrid"
    by (simp_all add: groupedGrid_shape ungroupedGrid_shape)
  have nb: "\<not> isCellWithinBounds ungroupedGrid \<lparr> idx = -1, rowIdx = 0 \<rparr>"
    by (simp add: isCellWithinBounds_def minColIdx_def ungroupedGrid_shape)
  have rej: "selectCell ungroupedGrid (cursorAt 1 1) \<lparr> idx = -1, rowIdx = 0 \<rparr> False
               = Inr (cursorAt 1 1, [])"
    using nb by (rule selectCell_out_of_bounds)
  have 3: "renderChecks ungroupedGrid (cursorAt (-1) 0) = (cursorAt (-1) 0, [])"
    by (simp add: renderChecks_def Let_def resetOutOfBounds_def isStaleEdit_def cursorAt_def
          ungroupedGrid_shape sixRows_def)
  have pos: "selectedPosition (cursorAt (-1) 0 :: (string \<times> nat) grid_state)
               = \<lparr> idx = -1, rowIdx = 0, mode = SELECT \<rparr>"
    by (simp add: cursorAt_def)
  have ns: "\<lparr> idx = -1, rowIdx = 0, mode = SELECT \<rparr>
              \<noteq> (unselected :: (string \<times> nat) selected_position)"
    by (simp add: unselected_def)
  have 4: "\<not> positionInvariant ungroupedGrid (cursorAt (-1) 0 :: (string \<times> nat) grid_state)"
    using ns by (simp add: positionInvariant_def pos isCellWithinBounds_def minColIdx_def
          ungroupedGrid_shape)
  show ?thesis using positionInvariant_initial 1 2 g nb rej 3 pos ns 4 by simp
qed

end
